theory Spec2Isabelle
  imports Main "HOL-Library.Word"
begin

unbundle bit_operations_syntax

section \<open>Machine integers and bit helpers\<close>

text \<open>
  The pipeline of \<^verbatim>\<open>pkg/ebpf/events_pipeline.go\<close> runs on a 64-bit target:
  \<^verbatim>\<open>getStackAddresses\<close> reads \<^verbatim>\<open>strconv.IntSize / 8\<close> bytes with
  \<^verbatim>\<open>binary.LittleEndian.Uint64\<close>, which needs eight. Go's \<^verbatim>\<open>int\<close> and
  \<^verbatim>\<open>uint\<close> are therefore 64-bit words; a conversion between integer types of the same
  width keeps the bits, a widening of an unsigned value is \<open>ucast\<close>, of a signed one
  \<open>scast\<close>, and a narrowing keeps the low bits (\<open>ucast\<close>).
\<close>

type_synonym u8 = "8 word"
type_synonym u16 = "16 word"
type_synonym u32 = "32 word"
type_synonym u64 = "64 word"
type_synonym goint = "64 word"
type_synonym EventID = "32 word"

text \<open>
  Modelled from the spec: the bit helpers of \<^verbatim>\<open>pkg/utils\<close>, which are not part of
  the file (the scope bitmap is a 64-bit integer whose operations are bit-test and
  bit-clear). \<^verbatim>\<open>HasBit(n, offset)\<close> is \<^verbatim>\<open>n & (1 << offset) > 0\<close>,
  \<^verbatim>\<open>ClearBit(&n, offset)\<close> is \<^verbatim>\<open>n &= ^(1 << offset)\<close> and
  \<^verbatim>\<open>ClearBits(&n, mask)\<close> is \<^verbatim>\<open>n &= ^mask\<close>. A shift by 64 or more gives 0
  in Go as it does for \<open>push_bit\<close> on a 64-bit word.
\<close>

definition HasBit :: "u64 \<Rightarrow> nat \<Rightarrow> bool" where
  "HasBit n offset = (n AND push_bit offset 1 > 0)"

definition ClearBit :: "u64 \<Rightarrow> nat \<Rightarrow> u64" where
  "ClearBit n offset = n AND NOT (push_bit offset 1)"

definition ClearBits :: "u64 \<Rightarrow> u64 \<Rightarrow> u64" where
  "ClearBits n bits = n AND NOT bits"

section \<open>Events\<close>

record ArgMeta =
  Name :: string
  Type :: string

datatype ArgValue = IntValue int | StringValue string | BytesValue "u8 list"

record Argument =
  ArgMeta :: ArgMeta
  Value :: ArgValue

record ContextFlags =
  ContainerStarted :: bool
  IsCompat :: bool

text \<open>
  \<^verbatim>\<open>trace.Event\<close> with the fields \<^verbatim>\<open>decodeEvents\<close> fills, in its order.
\<close>

record Event =
  Timestamp :: goint
  ThreadStartTime :: goint
  ProcessorID :: goint
  ProcessID :: goint
  ThreadID :: goint
  ParentProcessID :: goint
  HostProcessID :: goint
  HostThreadID :: goint
  HostParentProcessID :: goint
  UserID :: goint
  MountNS :: goint
  PIDNS :: goint
  ProcessName :: string
  HostName :: string
  CgroupID :: u64
  ContainerID :: string
  ContainerImage :: string
  ContainerName :: string
  PodName :: string
  PodNamespace :: string
  PodUID :: string
  PodSandbox :: bool
  EventID :: goint
  EventName :: string
  MatchedScopes :: u64
  ArgsNum :: goint
  ReturnValue :: goint
  Args :: "Argument list"
  StackAddresses :: "u64 list"
  ContextFlags :: ContextFlags

section \<open>Filter scopes\<close>

text \<open>
  Modelled from the spec: the unsigned-integer filter of \<^verbatim>\<open>pkg/filters\<close>, which is
  not part of the file: an enabled flag and a \<open>[min, max]\<close> range over a 32-bit value.
\<close>

record UIntFilter =
  enabled :: bool
  minimum :: u32
  maximum :: u32

definition Enabled :: "UIntFilter \<Rightarrow> bool" where
  "Enabled f = enabled f"

definition InMinMaxRange :: "UIntFilter \<Rightarrow> u32 \<Rightarrow> bool" where
  "InMinMaxRange f val = (minimum f \<le> val \<and> val \<le> maximum f)"

text \<open>
  A scope as \<^verbatim>\<open>computeScopes\<close> uses it. The context, return-value and argument
  filters live outside the file and are taken as the predicates their \<^verbatim>\<open>Filter\<close>
  methods compute: the context filter receives the event by value, the return-value filter
  the event id and the return value as \<^verbatim>\<open>int64\<close>, the argument filter the event id
  and the arguments.
\<close>

record FilterScope =
  ID :: nat
  ContextFilter :: "Event \<Rightarrow> bool"
  RetFilter :: "EventID \<Rightarrow> 64 word \<Rightarrow> bool"
  ArgFilter :: "EventID \<Rightarrow> Argument list \<Rightarrow> bool"
  UIDFilter :: UIntFilter
  PIDFilter :: UIntFilter

text \<open>
  One iteration of the loop of \<^verbatim>\<open>computeScopes\<close>: every \<^verbatim>\<open>continue\<close> is a branch
  that returns the bitmap as it stands.
\<close>

definition computeScopes_body :: "Event \<Rightarrow> u64 \<Rightarrow> FilterScope \<Rightarrow> u64 \<Rightarrow> u64" where
  "computeScopes_body event origMatchedScopes filterScope matchedScopes =
     (let eventID = (ucast (EventID event) :: EventID);
          bitOffset = ID filterScope
      in if \<not> HasBit origMatchedScopes bitOffset then matchedScopes
         else if \<not> ContextFilter filterScope event then ClearBit matchedScopes bitOffset
         else if \<not> RetFilter filterScope eventID (ReturnValue event)
           then ClearBit matchedScopes bitOffset
         else if \<not> ArgFilter filterScope eventID (Args event)
           then ClearBit matchedScopes bitOffset
         else if Enabled (UIDFilter filterScope) \<and>
                 \<not> InMinMaxRange (UIDFilter filterScope) (ucast (UserID event))
           then ClearBit matchedScopes bitOffset
         else if Enabled (PIDFilter filterScope) \<and>
                 \<not> InMinMaxRange (PIDFilter filterScope) (ucast (HostProcessID event))
           then ClearBit matchedScopes bitOffset
         else matchedScopes)"

fun computeScopes_loop :: "Event \<Rightarrow> u64 \<Rightarrow> FilterScope list \<Rightarrow> u64 \<Rightarrow> u64" where
  "computeScopes_loop event orig [] matchedScopes = matchedScopes"
| "computeScopes_loop event orig (filterScope # rest) matchedScopes =
     computeScopes_loop event orig rest
       (computeScopes_body event orig filterScope matchedScopes)"

text \<open>
  \<^verbatim>\<open>computeScopes\<close> ranges over \<^verbatim>\<open>t.config.FilterScopes.Map()\<close>; a Go map is
  visited in no fixed order, so the scopes are a list in the order of one visit.
\<close>

definition computeScopes :: "FilterScope list \<Rightarrow> Event \<Rightarrow> u64" where
  "computeScopes filterScopes event =
     computeScopes_loop event (MatchedScopes event) filterScopes (MatchedScopes event)"

text \<open>
  \<^verbatim>\<open>shouldProcessEvent\<close> writes through its pointer: the model returns the event as
  the call leaves it, with the verdict.
\<close>

definition shouldProcessEvent :: "FilterScope list \<Rightarrow> Event \<Rightarrow> Event \<times> bool" where
  "shouldProcessEvent filterScopes event =
     (let event' = event\<lparr>MatchedScopes := computeScopes filterScopes event\<rparr>
      in (event', MatchedScopes event' \<noteq> 0))"

text \<open>The rejection test of one scope, as the five guards of the loop body spell it.\<close>

definition rejects :: "FilterScope \<Rightarrow> Event \<Rightarrow> bool" where
  "rejects s e =
     (\<not> ContextFilter s e \<or>
      \<not> RetFilter s (ucast (EventID e)) (ReturnValue e) \<or>
      \<not> ArgFilter s (ucast (EventID e)) (Args e) \<or>
      (Enabled (UIDFilter s) \<and> \<not> InMinMaxRange (UIDFilter s) (ucast (UserID e))) \<or>
      (Enabled (PIDFilter s) \<and> \<not> InMinMaxRange (PIDFilter s) (ucast (HostProcessID e))))"

section \<open>Tracee: configuration, collaborators and state\<close>

datatype error = Error string

datatype panic = IndexOutOfRange | SliceBoundsOutOfRange

text \<open>
  Modelled from the spec: \<^verbatim>\<open>bufferdecoder.Context\<close>, the fixed header of a raw
  record, whose declaration is not part of the file. The widths are those the conversions
  of \<^verbatim>\<open>decodeEvents\<close> start from; the fields carry the prefix \<open>ctx_\<close> because
  the event has fields of the same names.
\<close>

record Context =
  ctx_Ts :: u64
  ctx_StartTime :: u64
  ctx_CgroupID :: u64
  ctx_Pid :: u32
  ctx_Tid :: u32
  ctx_Ppid :: u32
  ctx_HostPid :: u32
  ctx_HostTid :: u32
  ctx_HostPpid :: u32
  ctx_Uid :: u32
  ctx_MntID :: u32
  ctx_PidID :: u32
  ctx_Comm :: "u8 list"
  ctx_UtsName :: "u8 list"
  ctx_Flags :: u32
  ctx_EventID :: EventID
  ctx_MatchedScopes :: u64
  ctx_Retval :: "64 word"
  ctx_StackID :: u32
  ctx_ProcessorId :: u16
  ctx_Argnum :: u8

record EventDefinition =
  Def_Name :: string
  Params :: "ArgMeta list"

text \<open>The container of a cgroup, as \<^verbatim>\<open>GetCgroupInfo(id).Container\<close> gives it.\<close>

record ContainerInfo =
  ContainerId :: string
  Image :: string
  Container_Name :: string
  Pod_Name :: string
  Pod_Namespace :: string
  Pod_UID :: string
  Pod_Sandbox :: bool

record Config =
  Output_StackAddresses :: bool
  Output_RelativeTime :: bool
  Output_ParseArguments :: bool
  Output_ParseArgumentsFDs :: bool
  EngineConfig_Enabled :: bool
  FilterScopes :: "FilterScope list"
  ContainerFilterEnabled :: u64

record eventConfig =
  emit :: u64

text \<open>
  The receiver \<^verbatim>\<open>t *Tracee\<close>: what the pipeline reads of it, and the functions of other
  packages it calls, taken as parameters. The decoder \<^verbatim>\<open>ebpfMsgDecoder\<close> is the
  list of bytes it has not consumed yet: \<^verbatim>\<open>DecodeContext\<close> returns the header and
  the payload that follows it, \<^verbatim>\<open>ReadArgFromBuff\<close> the argument or the error and the
  bytes left. \<^verbatim>\<open>processEvent\<close>, \<^verbatim>\<open>ParseArgs\<close> and \<^verbatim>\<open>ParseArgsFDs\<close> work
  through a pointer to the event and return it as they leave it.
\<close>

record Tracee =
  config :: Config
  startTime :: u64
  bootTime :: u64
  events :: "EventID \<rightharpoonup> eventConfig"
  eventDerivations :: "EventID \<rightharpoonup> (Event \<Rightarrow> Event list \<times> error list)"
  GetCgroupInfo :: "u64 \<Rightarrow> ContainerInfo"
  DecodeContext :: "u8 list \<Rightarrow> error + Context \<times> u8 list"
  GetSafe :: "EventID \<Rightarrow> EventDefinition option"
  ReadArgFromBuff ::
    "EventID \<Rightarrow> u8 list \<Rightarrow> ArgMeta list \<Rightarrow> (error + ArgMeta \<times> ArgValue) \<times> u8 list"
  processEvent :: "Event \<Rightarrow> Event \<times> error list"
  ParseArgs :: "Event \<Rightarrow> Event \<times> error option"
  ParseArgsFDs :: "Event \<Rightarrow> Event \<times> error option"

text \<open>
  The event ids the pipeline names, constants of the package \<^verbatim>\<open>events\<close> whose values
  are declared outside the file: they are parameters.
\<close>

record EventIDs =
  CgroupMkdir :: EventID
  CgroupRmdir :: EventID
  SymbolsLoaded :: EventID
  SharedObjectLoaded :: EventID
  PrintMemDump :: EventID

text \<open>
  Modelled from the spec: the statistics counters, whose type is declared outside the
  file: 64-bit counters with an atomic increment.
\<close>

record Stats =
  EventCount :: u64
  EventsFiltered :: u64
  ErrorCount :: u64

definition Increment :: "u64 \<Rightarrow> u64" where
  "Increment c = c + 1"

text \<open>What the pipeline mutates: the counters and the stack table.\<close>

record TraceeState =
  stats :: Stats
  StackAddressesMap :: "u32 \<rightharpoonup> u8 list"

text \<open>\<^verbatim>\<open>handleError\<close> counts the error; the log line is not modelled.\<close>

definition handleError :: "TraceeState \<Rightarrow> error \<Rightarrow> TraceeState" where
  "handleError st err = st\<lparr>stats := (stats st)\<lparr>ErrorCount := Increment (ErrorCount (stats st))\<rparr>\<rparr>"

text \<open>
  What one turn of a stage's loop does with its record: \<open>Dropped\<close> is \<^verbatim>\<open>continue\<close>,
  \<open>Sent\<close> the send on the output channel, \<open>Stopped\<close> the \<^verbatim>\<open>return\<close> taken when the
  \<^verbatim>\<open>select\<close> picks \<^verbatim>\<open>ctx.Done()\<close>. Which branch the \<^verbatim>\<open>select\<close> takes is an
  input of the turn.
\<close>

datatype outcome = Dropped | Sent Event | Stopped

definition select_send :: "bool \<Rightarrow> Event \<Rightarrow> outcome" where
  "select_send done event = (if done then Stopped else Sent event)"

section \<open>Stack addresses\<close>

definition maxStackDepth :: nat where
  "maxStackDepth = 20"

definition stackFrameSize :: nat where
  "stackFrameSize = 64 div 8"

text \<open>\<^verbatim>\<open>binary.LittleEndian.Uint64\<close>, on a slice of eight bytes.\<close>

definition Uint64 :: "u8 list \<Rightarrow> u64" where
  "Uint64 b =
     ucast (b ! 0) OR push_bit 8 (ucast (b ! 1)) OR push_bit 16 (ucast (b ! 2)) OR
     push_bit 24 (ucast (b ! 3)) OR push_bit 32 (ucast (b ! 4)) OR
     push_bit 40 (ucast (b ! 5)) OR push_bit 48 (ucast (b ! 6)) OR
     push_bit 56 (ucast (b ! 7))"

text \<open>
  The loop of \<^verbatim>\<open>getStackAddresses\<close>. Go checks the index of
  \<^verbatim>\<open>StackAddresses[stackCounter] = 0\<close> and the bounds of
  \<^verbatim>\<open>stackBytes[i : i+stackFrameSize]\<close> and panics when one fails; the byte slice is
  taken with its capacity equal to its length. The slice \<^verbatim>\<open>StackAddresses\<close> is
  \<open>stackAddrs\<close> here, the event having a field of that name.
\<close>

function getStackAddresses_loop ::
  "u8 list \<Rightarrow> nat \<Rightarrow> u64 list \<Rightarrow> nat \<Rightarrow> panic + u64 list \<times> nat" where
  "getStackAddresses_loop stackBytes i stackAddrs stackCounter =
     (if i < length stackBytes then
        if length stackAddrs \<le> stackCounter then Inl IndexOutOfRange
        else if length stackBytes < i + stackFrameSize then Inl SliceBoundsOutOfRange
        else
          let stackAddrs1 = stackAddrs[stackCounter := 0];
              stackAddr = Uint64 (take stackFrameSize (drop i stackBytes))
          in if stackAddr = 0 then Inr (stackAddrs1, stackCounter)
             else getStackAddresses_loop stackBytes (i + stackFrameSize)
                    (stackAddrs1[stackCounter := stackAddr]) (stackCounter + 1)
      else Inr (stackAddrs, stackCounter))"
  by pat_completeness auto
termination
  by (relation "measure (\<lambda>(stackBytes, i, stackAddrs, stackCounter). length stackBytes - i)")
     (auto simp: stackFrameSize_def)

text \<open>
  A missing stack id is the error of \<^verbatim>\<open>GetValue\<close> and gives the empty slice. The key
  is deleted after the loop; the result of \<^verbatim>\<open>DeleteKey\<close> is discarded.
\<close>

definition getStackAddresses :: "TraceeState \<Rightarrow> u32 \<Rightarrow> panic + u64 list \<times> TraceeState" where
  "getStackAddresses st StackID =
     (let stackAddrs = replicate maxStackDepth (0 :: u64)
      in case StackAddressesMap st StackID of
           None \<Rightarrow> Inr (take 0 stackAddrs, st)
         | Some stackBytes \<Rightarrow>
             (case getStackAddresses_loop stackBytes 0 stackAddrs 0 of
                Inl p \<Rightarrow> Inl p
              | Inr (stackAddrs', stackCounter) \<Rightarrow>
                  Inr (take stackCounter stackAddrs',
                       st\<lparr>StackAddressesMap := (StackAddressesMap st)(StackID := None)\<rparr>)))"

text \<open>The 8-byte words of a table entry, for stating what the loop returns.\<close>

fun words_of :: "u8 list \<Rightarrow> u64 list" where
  "words_of bs =
     (if length bs < 8 then [] else Uint64 (take 8 bs) # words_of (drop 8 bs))"

section \<open>The decoder\<close>

definition parseContextFlags :: "u32 \<Rightarrow> ContextFlags" where
  "parseContextFlags flags =
     \<lparr>ContainerStarted = (flags AND 1 \<noteq> 0), IsCompat = (flags AND 2 \<noteq> 0)\<rparr>"

text \<open>\<^verbatim>\<open>string(bytes.TrimRight(b, "\x00"))\<close>: the bytes without their trailing NULs.\<close>

definition TrimRight_NUL :: "u8 list \<Rightarrow> string" where
  "TrimRight_NUL b = map (\<lambda>x. char_of (unat x)) (rev (dropWhile (\<lambda>x. x = 0) (rev b)))"

text \<open>
  The argument loop of \<^verbatim>\<open>decodeEvents\<close>, \<^verbatim>\<open>for i := 0; i < int(ctx.Argnum); i++\<close>,
  by the number of turns left. On an error the loop calls \<^verbatim>\<open>handleError\<close> and its
  \<^verbatim>\<open>continue\<close> goes to the next turn of this same loop.
\<close>

fun decodeArgs ::
  "Tracee \<Rightarrow> EventID \<Rightarrow> ArgMeta list \<Rightarrow> nat \<Rightarrow> TraceeState \<Rightarrow> u8 list \<Rightarrow> Argument list \<Rightarrow>
   TraceeState \<times> u8 list \<times> Argument list" where
  "decodeArgs t eventId params 0 st ebpfMsgDecoder args = (st, ebpfMsgDecoder, args)"
| "decodeArgs t eventId params (Suc n) st ebpfMsgDecoder args =
     (case ReadArgFromBuff t eventId ebpfMsgDecoder params of
        (Inl err, ebpfMsgDecoder') \<Rightarrow>
          decodeArgs t eventId params n
            (handleError st (Error ''failed to read argument'')) ebpfMsgDecoder' args
      | (Inr (argMeta, argVal), ebpfMsgDecoder') \<Rightarrow>
          decodeArgs t eventId params n st ebpfMsgDecoder'
            (args @ [\<lparr>ArgMeta = argMeta, Value = argVal\<rparr>]))"

text \<open>The two timestamp modes, lines 186 to 194, on the header.\<close>

definition normalizeTime :: "Tracee \<Rightarrow> Context \<Rightarrow> Context" where
  "normalizeTime t ctx =
     (if Output_RelativeTime (config t)
      then ctx\<lparr>ctx_Ts := ctx_Ts ctx - startTime t,
               ctx_StartTime := ctx_StartTime ctx - startTime t\<rparr>
      else ctx\<lparr>ctx_Ts := ctx_Ts ctx + bootTime t,
               ctx_StartTime := ctx_StartTime ctx + bootTime t\<rparr>)"

text \<open>The event literal of \<^verbatim>\<open>decodeEvents\<close>, with the conversions to \<^verbatim>\<open>int\<close>.\<close>

definition makeEvent ::
  "Context \<Rightarrow> ContainerInfo \<Rightarrow> EventDefinition \<Rightarrow> Argument list \<Rightarrow> u64 list \<Rightarrow> Event" where
  "makeEvent ctx containerInfo eventDefinition args stackAddrs =
     \<lparr>Timestamp = ctx_Ts ctx,
      ThreadStartTime = ctx_StartTime ctx,
      ProcessorID = ucast (ctx_ProcessorId ctx),
      ProcessID = ucast (ctx_Pid ctx),
      ThreadID = ucast (ctx_Tid ctx),
      ParentProcessID = ucast (ctx_Ppid ctx),
      HostProcessID = ucast (ctx_HostPid ctx),
      HostThreadID = ucast (ctx_HostTid ctx),
      HostParentProcessID = ucast (ctx_HostPpid ctx),
      UserID = ucast (ctx_Uid ctx),
      MountNS = ucast (ctx_MntID ctx),
      PIDNS = ucast (ctx_PidID ctx),
      ProcessName = TrimRight_NUL (ctx_Comm ctx),
      HostName = TrimRight_NUL (ctx_UtsName ctx),
      CgroupID = ctx_CgroupID ctx,
      ContainerID = ContainerId containerInfo,
      ContainerImage = Image containerInfo,
      ContainerName = Container_Name containerInfo,
      PodName = Pod_Name containerInfo,
      PodNamespace = Pod_Namespace containerInfo,
      PodUID = Pod_UID containerInfo,
      PodSandbox = Pod_Sandbox containerInfo,
      EventID = scast (ctx_EventID ctx),
      EventName = Def_Name eventDefinition,
      MatchedScopes = ctx_MatchedScopes ctx,
      ArgsNum = ucast (ctx_Argnum ctx),
      ReturnValue = ctx_Retval ctx,
      Args = args,
      StackAddresses = stackAddrs,
      ContextFlags = parseContextFlags (ctx_Flags ctx)\<rparr>"

text \<open>
  One turn of the loop of \<^verbatim>\<open>decodeEvents\<close> over the raw records. A panic of
  \<^verbatim>\<open>getStackAddresses\<close> is a panic of the turn.
\<close>

definition decodeEvents_step ::
  "Tracee \<Rightarrow> TraceeState \<Rightarrow> u8 list \<Rightarrow> bool \<Rightarrow> panic + TraceeState \<times> outcome" where
  "decodeEvents_step t st dataRaw done =
     (case DecodeContext t dataRaw of
        Inl err \<Rightarrow> Inr (handleError st err, Dropped)
      | Inr (ctx, ebpfMsgDecoder) \<Rightarrow>
          let eventId = ctx_EventID ctx
          in (case GetSafe t eventId of
               None \<Rightarrow>
                 Inr (handleError st (Error ''failed to get configuration of event''), Dropped)
             | Some eventDefinition \<Rightarrow>
                 (case decodeArgs t eventId (Params eventDefinition) (unat (ctx_Argnum ctx))
                         st ebpfMsgDecoder [] of
                    (st1, ebpfMsgDecoder', args) \<Rightarrow>
                      (case (if Output_StackAddresses (config t)
                             then getStackAddresses st1 (ctx_StackID ctx)
                             else Inr ([], st1)) of
                         Inl p \<Rightarrow> Inl p
                       | Inr (stackAddrs, st2) \<Rightarrow>
                           let ctx' = normalizeTime t ctx;
                               containerInfo = GetCgroupInfo t (ctx_CgroupID ctx');
                               evt = makeEvent ctx' containerInfo eventDefinition args stackAddrs
                           in if eventId \<notin> dom (eventDerivations t)
                              then (case shouldProcessEvent (FilterScopes (config t)) evt of
                                      (evt', ok) \<Rightarrow>
                                        if \<not> ok
                                        then Inr (st2\<lparr>stats := (stats st2)
                                               \<lparr>EventsFiltered :=
                                                  Increment (EventsFiltered (stats st2))\<rparr>\<rparr>,
                                              Dropped)
                                        else Inr (st2, select_send done evt'))
                              else Inr (st2, select_send done evt)))))"

section \<open>The processor\<close>

text \<open>
  One turn of the loop of \<^verbatim>\<open>processEvents\<close>. \<^verbatim>\<open>ContainerFilterEnabled()\<close> is the
  bitmap of the scopes whose container filter is enabled.
\<close>

definition processEvents_step ::
  "Tracee \<Rightarrow> EventIDs \<Rightarrow> TraceeState \<Rightarrow> Event \<Rightarrow> bool \<Rightarrow> TraceeState \<times> outcome" where
  "processEvents_step t ids st event0 done =
     (case processEvent t event0 of
        (event, errs) \<Rightarrow>
          if length errs > 0 then (foldl handleError st errs, Dropped)
          else
            let scopesWithContainerFilter = ContainerFilterEnabled (config t)
            in if scopesWithContainerFilter > 0 \<and> ContainerID event = []
               then
                 let eventId = (ucast (EventID event) :: EventID)
                 in if eventId \<noteq> CgroupMkdir ids \<and> eventId \<noteq> CgroupRmdir ids
                    then
                      let event' = event\<lparr>MatchedScopes :=
                                     ClearBits (MatchedScopes event) scopesWithContainerFilter\<rparr>
                      in if MatchedScopes event' = 0 then (st, Dropped)
                         else (st, select_send done event')
                    else (st, select_send done event)
               else (st, select_send done event))"

section \<open>The deriver\<close>

text \<open>
  Modelled from the spec: \<^verbatim>\<open>DeriveEvent\<close> of the derivation table, declared outside
  the file: the registry gives zero or more derivatives, and errors, for the copy of the
  event; an event id with no derivation gives none.
\<close>

definition DeriveEvent :: "Tracee \<Rightarrow> Event \<Rightarrow> Event list \<times> error list" where
  "DeriveEvent t event =
     (case eventDerivations t (ucast (EventID event)) of
        None \<Rightarrow> ([], [])
      | Some derive \<Rightarrow> derive event)"

text \<open>
  The channel \<^verbatim>\<open>out\<close> of \<^verbatim>\<open>deriveEvents\<close> carries pointers. One turn sends two of
  them: \<^verbatim>\<open>event\<close>, the pointer it received, and \<^verbatim>\<open>&derivative\<close>, the address of the
  variable of \<^verbatim>\<open>for _, derivative := range derivatives\<close>. In the Go this file is written
  for (before 1.22) a range loop has one variable for all its turns, so every
  \<^verbatim>\<open>&derivative\<close> is the same address, and each turn overwrites what it points to. The
  heap of a turn says what the two addresses point to. A send is recorded with its pointer
  and with the event the pointer points to at the moment of the send; a receiver that
  reads through the pointer later reads what the heap holds there then.
\<close>

datatype addr = EventAddr | DerivativeAddr

type_synonym heap = "addr \<Rightarrow> Event"

record chan_send =
  ptr :: addr
  at_send :: Event

definition deref :: "heap \<Rightarrow> chan_send \<Rightarrow> Event" where
  "deref h s = h (ptr s)"

text \<open>
  The loop over the derivatives. Each turn copies the next derivative into the variable
  \<^verbatim>\<open>derivative\<close>; the three empty \<^verbatim>\<open>case\<close>s of the \<^verbatim>\<open>switch\<close> leave it without a
  filter, the \<^verbatim>\<open>default\<close> calls \<^verbatim>\<open>shouldProcessEvent(&derivative)\<close>, which writes
  \<^verbatim>\<open>MatchedScopes\<close> in the variable; \<^verbatim>\<open>out <- &derivative\<close> sends the variable's
  address. The result is the state, the heap and the sends, in order.
\<close>

fun deriveEvents_loop ::
  "Tracee \<Rightarrow> EventIDs \<Rightarrow> TraceeState \<Rightarrow> heap \<Rightarrow> Event list \<Rightarrow>
   TraceeState \<times> heap \<times> chan_send list" where
  "deriveEvents_loop t ids st h [] = (st, h, [])"
| "deriveEvents_loop t ids st h (d # rest) =
     (let h1 = h(DerivativeAddr := d);
          derivativeId = (ucast (EventID (h1 DerivativeAddr)) :: EventID)
      in if derivativeId = SymbolsLoaded ids \<or> derivativeId = SharedObjectLoaded ids \<or>
            derivativeId = PrintMemDump ids
         then (case deriveEvents_loop t ids st h1 rest of
                 (st', h', out) \<Rightarrow>
                   (st', h', \<lparr>ptr = DerivativeAddr, at_send = h1 DerivativeAddr\<rparr> # out))
         else (case shouldProcessEvent (FilterScopes (config t)) (h1 DerivativeAddr) of
                 (derivative', ok) \<Rightarrow>
                   let h2 = h1(DerivativeAddr := derivative')
                   in if \<not> ok
                      then deriveEvents_loop t ids
                             (st\<lparr>stats := (stats st)
                                \<lparr>EventsFiltered := Increment (EventsFiltered (stats st))\<rparr>\<rparr>)
                             h2 rest
                      else (case deriveEvents_loop t ids st h2 rest of
                              (st', h', out) \<Rightarrow>
                                (st', h',
                                 \<lparr>ptr = DerivativeAddr, at_send = h2 DerivativeAddr\<rparr> # out))))"

text \<open>
  One received event of \<^verbatim>\<open>deriveEvents\<close>, the pointer \<^verbatim>\<open>event\<close> being
  \<open>EventAddr\<close>: the copy is taken, the pointer is sent first, then the derivatives of the
  copy go through the loop.
\<close>

definition deriveEvents_step ::
  "Tracee \<Rightarrow> EventIDs \<Rightarrow> TraceeState \<Rightarrow> heap \<Rightarrow> TraceeState \<times> heap \<times> chan_send list" where
  "deriveEvents_step t ids st h =
     (let eventCopy = h EventAddr
      in case DeriveEvent t eventCopy of
           (derivatives, errors) \<Rightarrow>
             (case deriveEvents_loop t ids (foldl handleError st errors) h derivatives of
                (st', h', out) \<Rightarrow>
                  (st', h', \<lparr>ptr = EventAddr, at_send = h EventAddr\<rparr> # out)))"

section \<open>The sink\<close>

definition parseArguments :: "Tracee \<Rightarrow> Event \<Rightarrow> Event \<times> error option" where
  "parseArguments t e =
     (if Output_ParseArguments (config t)
      then (case ParseArgs t e of
              (e', Some err) \<Rightarrow> (e', Some err)
            | (e', None) \<Rightarrow>
                if Output_ParseArgumentsFDs (config t) then ParseArgsFDs t e' else (e', None))
      else (e, None))"

text \<open>
  \<^verbatim>\<open>t.events[id].emit\<close>: a Go map gives the zero value for a key it does not hold.
\<close>

definition emit_of :: "Tracee \<Rightarrow> EventID \<Rightarrow> u64" where
  "emit_of t eventId = (case events t eventId of None \<Rightarrow> 0 | Some c \<Rightarrow> emit c)"

text \<open>
  One turn of the loop of \<^verbatim>\<open>sinkEvents\<close>. \<open>sink_parse\<close> is the block that parses the
  arguments when the rule engine is off.
\<close>

definition sink_parse :: "Tracee \<Rightarrow> TraceeState \<Rightarrow> Event \<Rightarrow> TraceeState \<times> Event" where
  "sink_parse t st event =
     (if \<not> EngineConfig_Enabled (config t)
      then (case parseArguments t event of
              (event', Some err) \<Rightarrow> (handleError st err, event')
            | (event', None) \<Rightarrow> (st, event'))
      else (st, event))"

definition sinkEvents_step ::
  "Tracee \<Rightarrow> TraceeState \<Rightarrow> Event \<Rightarrow> bool \<Rightarrow> TraceeState \<times> outcome" where
  "sinkEvents_step t st event0 done =
     (let eventId = (ucast (EventID event0) :: EventID);
          event = event0\<lparr>MatchedScopes := MatchedScopes event0 AND emit_of t eventId\<rparr>
      in if MatchedScopes event = 0 then (st, Dropped)
         else (case sink_parse t st event of
                 (st1, event') \<Rightarrow>
                   if done then (st1, Stopped)
                   else (st1\<lparr>stats := (stats st1)
                            \<lparr>EventCount := Increment (EventCount (stats st1))\<rparr>\<rparr>,
                         Sent event')))"

section \<open>Notions for the statements\<close>

text \<open>A bitmap is a subset of another when it has no bit the other lacks.\<close>

definition scopes_subset :: "u64 \<Rightarrow> u64 \<Rightarrow> bool" where
  "scopes_subset a b = (a AND b = a)"

text \<open>
  The event as the sink masks it, \<^verbatim>\<open>event.MatchedScopes &= t.events[id].emit\<close>, for
  stating what the sink sends.
\<close>

definition emit_masked :: "Tracee \<Rightarrow> Event \<Rightarrow> Event" where
  "emit_masked t event =
     event\<lparr>MatchedScopes := MatchedScopes event AND emit_of t (ucast (EventID event))\<rparr>"

text \<open>
  The deriver's rule in the words of the specification: a derivative whose id is
  \<^verbatim>\<open>symbols_loaded\<close>, \<^verbatim>\<open>shared_object_loaded\<close> or \<^verbatim>\<open>print_mem_dump\<close> is exempt and is
  sent as it is; any other derivative is sent, as \<^verbatim>\<open>shouldProcessEvent\<close> leaves it, when
  \<^verbatim>\<open>shouldProcessEvent\<close> accepts it, and is filtered when it rejects it.
\<close>

definition exempt :: "EventIDs \<Rightarrow> Event \<Rightarrow> bool" where
  "exempt ids d =
     (ucast (EventID d) = SymbolsLoaded ids \<or> ucast (EventID d) = SharedObjectLoaded ids \<or>
      ucast (EventID d) = PrintMemDump ids)"

definition derivative_sent :: "Tracee \<Rightarrow> EventIDs \<Rightarrow> Event \<Rightarrow> Event option" where
  "derivative_sent t ids d =
     (if exempt ids d then Some d
      else if snd (shouldProcessEvent (FilterScopes (config t)) d)
      then Some (fst (shouldProcessEvent (FilterScopes (config t)) d))
      else None)"

definition derivative_filtered :: "Tracee \<Rightarrow> EventIDs \<Rightarrow> Event \<Rightarrow> bool" where
  "derivative_filtered t ids d =
     (\<not> exempt ids d \<and> \<not> snd (shouldProcessEvent (FilterScopes (config t)) d))"

text \<open>
  What the variable \<^verbatim>\<open>derivative\<close> holds when the turn on a derivative is over: the
  derivative itself when it is exempt, and otherwise as \<^verbatim>\<open>shouldProcessEvent\<close> left it.
\<close>

definition derivative_left :: "Tracee \<Rightarrow> EventIDs \<Rightarrow> Event \<Rightarrow> Event" where
  "derivative_left t ids d =
     (if exempt ids d then d else fst (shouldProcessEvent (FilterScopes (config t)) d))"

section \<open>Concrete configurations\<close>

text \<open>
  The zero value of \<^verbatim>\<open>trace.Event\<close>, a scope that filters on the host pid only, and
  the configuration of scenario S1: scopes 30 and 59 with the pid ranges
  \<open>(502000, 505000)\<close> and \<open>(100, 1257738)\<close>, and an event of host pid 150 that the
  kernel matched to both.
\<close>

definition zeroEvent :: Event where
  "zeroEvent =
     \<lparr>Timestamp = 0, ThreadStartTime = 0, ProcessorID = 0, ProcessID = 0, ThreadID = 0,
      ParentProcessID = 0, HostProcessID = 0, HostThreadID = 0, HostParentProcessID = 0,
      UserID = 0, MountNS = 0, PIDNS = 0, ProcessName = [], HostName = [], CgroupID = 0,
      ContainerID = [], ContainerImage = [], ContainerName = [], PodName = [],
      PodNamespace = [], PodUID = [], PodSandbox = False, EventID = 0, EventName = [],
      MatchedScopes = 0, ArgsNum = 0, ReturnValue = 0, Args = [], StackAddresses = [],
      ContextFlags = \<lparr>ContainerStarted = False, IsCompat = False\<rparr>\<rparr>"

definition pidScope :: "nat \<Rightarrow> u32 \<Rightarrow> u32 \<Rightarrow> FilterScope" where
  "pidScope n lo hi =
     \<lparr>ID = n, ContextFilter = (\<lambda>_. True), RetFilter = (\<lambda>_ _. True),
      ArgFilter = (\<lambda>_ _. True),
      UIDFilter = \<lparr>enabled = False, minimum = 0, maximum = 0\<rparr>,
      PIDFilter = \<lparr>enabled = True, minimum = lo, maximum = hi\<rparr>\<rparr>"

definition S1_scopes :: "FilterScope list" where
  "S1_scopes = [pidScope 30 502000 505000, pidScope 59 100 1257738]"

definition S1_event :: Event where
  "S1_event = zeroEvent\<lparr>HostProcessID := 150, MatchedScopes := push_bit 30 1 OR push_bit 59 1\<rparr>"

text \<open>
  Stack-table entries: the eight little-endian bytes of a small address, the entry of
  scenario S4 (25 non-zero words followed by a zero word) and an entry of 20 non-zero
  words, the size of an entry of the table; a state whose table holds one entry, under
  the stack id 7.
\<close>

definition wordBytes :: "u8 \<Rightarrow> u8 list" where
  "wordBytes b = [b, 0, 0, 0, 0, 0, 0, 0]"

definition S4_stackBytes :: "u8 list" where
  "S4_stackBytes =
    wordBytes 1 @ wordBytes 2 @ wordBytes 3 @ wordBytes 4 @ wordBytes 5 @ wordBytes 6 @
    wordBytes 7 @ wordBytes 8 @ wordBytes 9 @ wordBytes 10 @ wordBytes 11 @
    wordBytes 12 @ wordBytes 13 @ wordBytes 14 @ wordBytes 15 @ wordBytes 16 @
    wordBytes 17 @ wordBytes 18 @ wordBytes 19 @ wordBytes 20 @ wordBytes 21 @
    wordBytes 22 @ wordBytes 23 @ wordBytes 24 @ wordBytes 25 @ wordBytes 0"

definition full_stackBytes :: "u8 list" where
  "full_stackBytes =
    wordBytes 1 @ wordBytes 2 @ wordBytes 3 @ wordBytes 4 @ wordBytes 5 @ wordBytes 6 @
    wordBytes 7 @ wordBytes 8 @ wordBytes 9 @ wordBytes 10 @ wordBytes 11 @
    wordBytes 12 @ wordBytes 13 @ wordBytes 14 @ wordBytes 15 @ wordBytes 16 @
    wordBytes 17 @ wordBytes 18 @ wordBytes 19 @ wordBytes 20"

definition zeroStats :: Stats where
  "zeroStats = \<lparr>EventCount = 0, EventsFiltered = 0, ErrorCount = 0\<rparr>"

definition stackState :: "u8 list \<Rightarrow> TraceeState" where
  "stackState bs = \<lparr>stats = zeroStats, StackAddressesMap = [7 \<mapsto> bs]\<rparr>"

text \<open>
  A header, a container and a configuration with every field zero, and a Tracee whose
  collaborators are the simplest ones: the header decoder yields a given header and leaves
  the record's bytes as the payload, every event id is defined, an argument is one byte of
  the payload and reading from an exhausted payload is an error, and the side effects and
  the argument parsers leave the event alone. Its \<^verbatim>\<open>startTime\<close> is 1000 and its
  \<^verbatim>\<open>bootTime\<close> \<open>10^9\<close>, as in scenario S5.
\<close>

definition zeroContext :: Context where
  "zeroContext =
     \<lparr>ctx_Ts = 0, ctx_StartTime = 0, ctx_CgroupID = 0, ctx_Pid = 0, ctx_Tid = 0,
      ctx_Ppid = 0, ctx_HostPid = 0, ctx_HostTid = 0, ctx_HostPpid = 0, ctx_Uid = 0,
      ctx_MntID = 0, ctx_PidID = 0, ctx_Comm = replicate 16 0, ctx_UtsName = replicate 16 0,
      ctx_Flags = 0, ctx_EventID = 0, ctx_MatchedScopes = 0, ctx_Retval = 0,
      ctx_StackID = 0, ctx_ProcessorId = 0, ctx_Argnum = 0\<rparr>"

definition emptyContainer :: ContainerInfo where
  "emptyContainer =
     \<lparr>ContainerId = [], Image = [], Container_Name = [], Pod_Name = [], Pod_Namespace = [],
      Pod_UID = [], Pod_Sandbox = False\<rparr>"

definition zeroConfig :: Config where
  "zeroConfig =
     \<lparr>Output_StackAddresses = False, Output_RelativeTime = False,
      Output_ParseArguments = False, Output_ParseArgumentsFDs = False,
      EngineConfig_Enabled = False, FilterScopes = [], ContainerFilterEnabled = 0\<rparr>"

definition stubReadArg ::
  "EventID \<Rightarrow> u8 list \<Rightarrow> ArgMeta list \<Rightarrow> (error + ArgMeta \<times> ArgValue) \<times> u8 list" where
  "stubReadArg eventId payload params =
     (case payload of
        [] \<Rightarrow> (Inl (Error ''short buffer''), [])
      | b # rest \<Rightarrow> (Inr (\<lparr>Name = ''arg'', Type = ''u8''\<rparr>, IntValue (uint b)), rest))"

definition stubTracee :: "Config \<Rightarrow> Context \<Rightarrow> Tracee" where
  "stubTracee cfg ctx =
     \<lparr>config = cfg, startTime = 1000, bootTime = 1000000000,
      events = (\<lambda>_. Some \<lparr>emit = 1\<rparr>), eventDerivations = Map.empty,
      GetCgroupInfo = (\<lambda>_. emptyContainer),
      DecodeContext = (\<lambda>dataRaw. Inr (ctx, dataRaw)),
      GetSafe = (\<lambda>_. Some \<lparr>Def_Name = ''event'', Params = []\<rparr>),
      ReadArgFromBuff = stubReadArg,
      processEvent = (\<lambda>e. (e, [])),
      ParseArgs = (\<lambda>e. (e, None)),
      ParseArgsFDs = (\<lambda>e. (e, None))\<rparr>"

definition zeroState :: TraceeState where
  "zeroState = \<lparr>stats = zeroStats, StackAddressesMap = Map.empty\<rparr>"

text \<open>
  A header that announces two arguments, for a record whose payload holds one, and the
  header of scenario S5, whose raw \<^verbatim>\<open>Ts\<close> is 1500.
\<close>

definition shortPayload_context :: Context where
  "shortPayload_context = zeroContext\<lparr>ctx_MatchedScopes := 1, ctx_Argnum := 2\<rparr>"

definition S5_context :: Context where
  "S5_context = zeroContext\<lparr>ctx_Ts := 1500, ctx_StartTime := 1200, ctx_MatchedScopes := 1\<rparr>"

text \<open>
  Event ids for the examples, the values being placeholders, and scenario S2: scope 7 alone
  has a container filter, the event has no container id and is no cgroup event.
\<close>

definition exampleIDs :: EventIDs where
  "exampleIDs =
     \<lparr>CgroupMkdir = 1, CgroupRmdir = 2, SymbolsLoaded = 3, SharedObjectLoaded = 4,
      PrintMemDump = 5\<rparr>"

definition S2_config :: Config where
  "S2_config = zeroConfig\<lparr>ContainerFilterEnabled := push_bit 7 1\<rparr>"

definition S2_event :: Event where
  "S2_event = zeroEvent\<lparr>EventID := 9, MatchedScopes := push_bit 7 1 OR 1\<rparr>"

text \<open>
  Scenario S3: the event id 9 has a derivation that gives a \<^verbatim>\<open>symbols_loaded\<close>
  derivative and one of another id; the only scope, 30, rejects both for their host pid.
  The deriver receives a pointer to the event; the loop's variable is not yet written.
\<close>

definition S3_tracee :: Tracee where
  "S3_tracee =
     (stubTracee (zeroConfig\<lparr>FilterScopes := [pidScope 30 502000 505000]\<rparr>) zeroContext)
       \<lparr>eventDerivations := [9 \<mapsto> (\<lambda>e. ([e\<lparr>EventID := 3\<rparr>, e\<lparr>EventID := 6\<rparr>], []))]\<rparr>"

definition S3_event :: Event where
  "S3_event = zeroEvent\<lparr>EventID := 9, HostProcessID := 150, MatchedScopes := push_bit 30 1\<rparr>"

definition S3_heap :: heap where
  "S3_heap = (\<lambda>a. zeroEvent)(EventAddr := S3_event)"

text \<open>
  A run of the whole pipeline: the kernel reports the scopes 0, 2 and 3; scope 3 filters on
  a pid range the event is outside of, scope 2 has a container filter and the event has no
  container, and the emit mask of every event id is scope 0.
\<close>

definition run_config :: Config where
  "run_config =
     zeroConfig\<lparr>FilterScopes := [pidScope 3 100 200], ContainerFilterEnabled := 4\<rparr>"

definition run_context :: Context where
  "run_context = zeroContext\<lparr>ctx_MatchedScopes := 13\<rparr>"

section \<open>Bit lemmas\<close>

lemma HasBit_bit: "HasBit n k = bit n k"
proof -
  have "(n AND 2 ^ k \<noteq> 0) = bit n k"
    by (simp add: and_exp_eq_0_iff_not_bit)
  then show ?thesis
    by (simp add: HasBit_def word_greater_zero_iff)
qed

lemma bit_ClearBit: "bit (ClearBit n k) j = (bit n j \<and> j \<noteq> k)"
  by (auto simp: ClearBit_def bit_and_iff bit_not_iff bit_push_bit_iff bit_1_iff
      bit_exp_iff dest: bit_imp_le_length)

lemma bit_ClearBits: "bit (ClearBits n m) j = (bit n j \<and> \<not> bit m j)"
  by (auto simp: ClearBits_def bit_and_iff bit_not_iff dest: bit_imp_le_length)

section \<open>What computeScopes computes\<close>

lemma bit_computeScopes_body:
  "bit (computeScopes_body e orig s m) j =
     (bit m j \<and> \<not> (j = ID s \<and> bit orig j \<and> rejects s e))"
  by (auto simp: computeScopes_body_def rejects_def Let_def HasBit_bit bit_ClearBit)

lemma bit_computeScopes_loop:
  "bit (computeScopes_loop e orig ss m) j =
     (bit m j \<and> \<not> (bit orig j \<and> (\<exists>s\<in>set ss. ID s = j \<and> rejects s e)))"
  by (induction ss arbitrary: m) (auto simp: bit_computeScopes_body)

lemma bit_computeScopes:
  "bit (computeScopes ss e) j =
     (bit (MatchedScopes e) j \<and> \<not> (\<exists>s\<in>set ss. ID s = j \<and> rejects s e))"
  by (auto simp: computeScopes_def bit_computeScopes_loop)

lemma scopes_subset_bit: "scopes_subset a b = (\<forall>j. bit a j \<longrightarrow> bit b j)"
proof
  assume "scopes_subset a b"
  then have "a AND b = a" by (simp add: scopes_subset_def)
  then show "\<forall>j. bit a j \<longrightarrow> bit b j" by (metis bit_and_iff)
next
  assume "\<forall>j. bit a j \<longrightarrow> bit b j"
  then have "a AND b = a" by (intro bit_eqI) (auto simp: bit_and_iff)
  then show "scopes_subset a b" by (simp add: scopes_subset_def)
qed

lemma scopes_subset_trans: "scopes_subset a b \<Longrightarrow> scopes_subset b c \<Longrightarrow> scopes_subset a c"
  by (simp add: scopes_subset_bit)

lemma computeScopes_subset: "scopes_subset (computeScopes ss e) (MatchedScopes e)"
  by (simp add: scopes_subset_bit bit_computeScopes)

lemma S1_computeScopes:
  assumes "HostProcessID e = 150" and "MatchedScopes e = push_bit 30 1 OR push_bit 59 1"
  shows "computeScopes S1_scopes e = push_bit 59 1"
  using assms
  by (simp add: computeScopes_def S1_scopes_def pidScope_def computeScopes_body_def
      HasBit_def ClearBit_def Enabled_def InMinMaxRange_def)

text \<open>
  Claim C4. With scopes of distinct ids, \<^verbatim>\<open>computeScopes\<close> starts from the bitmap the
  kernel supplied and, for each configured scope whose bit is set there, clears the bit
  exactly when the scope rejects: the context filter, the return-value filter or the
  argument filter rejects, or the UID filter is enabled and the UID is outside its range,
  or the PID filter is enabled and the host pid is outside its range. The bits of no
  configured scope stay as they are and no bit is set. \<^verbatim>\<open>shouldProcessEvent\<close> puts the
  result in \<^verbatim>\<open>MatchedScopes\<close> and returns false exactly when it is zero. In scenario
  S1 an event of host pid 150 matched to bits 30 and 59 ends with bit 59 alone, and is kept.
\<close>

theorem computeScopes_clears_exactly_rejected:
  assumes "distinct (map ID filterScopes)"
  shows "(\<forall>s\<in>set filterScopes. bit (MatchedScopes e) (ID s) \<longrightarrow>
            (bit (computeScopes filterScopes e) (ID s) \<longleftrightarrow> \<not> rejects s e)) \<and>
         (\<forall>j. (\<forall>s\<in>set filterScopes. ID s \<noteq> j) \<longrightarrow>
            bit (computeScopes filterScopes e) j = bit (MatchedScopes e) j) \<and>
         (\<forall>j. bit (computeScopes filterScopes e) j \<longrightarrow> bit (MatchedScopes e) j) \<and>
         shouldProcessEvent filterScopes e =
           (e\<lparr>MatchedScopes := computeScopes filterScopes e\<rparr>,
            computeScopes filterScopes e \<noteq> 0) \<and>
         (HostProcessID e = 150 \<and> MatchedScopes e = push_bit 30 1 OR push_bit 59 1 \<longrightarrow>
            fst (shouldProcessEvent S1_scopes e) = e\<lparr>MatchedScopes := push_bit 59 1\<rparr> \<and>
            snd (shouldProcessEvent S1_scopes e))"
proof -
  have same: "s = s'" if "s \<in> set filterScopes" "s' \<in> set filterScopes" "ID s = ID s'" for s s'
    using assms that by (meson distinct_map inj_onD)
  have 1: "\<forall>s\<in>set filterScopes. bit (MatchedScopes e) (ID s) \<longrightarrow>
            (bit (computeScopes filterScopes e) (ID s) \<longleftrightarrow> \<not> rejects s e)"
    using same by (auto simp: bit_computeScopes)
  have 2: "\<forall>j. (\<forall>s\<in>set filterScopes. ID s \<noteq> j) \<longrightarrow>
            bit (computeScopes filterScopes e) j = bit (MatchedScopes e) j"
    by (auto simp: bit_computeScopes)
  have 3: "\<forall>j. bit (computeScopes filterScopes e) j \<longrightarrow> bit (MatchedScopes e) j"
    by (simp add: bit_computeScopes)
  have 4: "shouldProcessEvent filterScopes e =
           (e\<lparr>MatchedScopes := computeScopes filterScopes e\<rparr>,
            computeScopes filterScopes e \<noteq> 0)"
    by (simp add: shouldProcessEvent_def)
  have 5: "HostProcessID e = 150 \<and> MatchedScopes e = push_bit 30 1 OR push_bit 59 1 \<longrightarrow>
            fst (shouldProcessEvent S1_scopes e) = e\<lparr>MatchedScopes := push_bit 59 1\<rparr> \<and>
            snd (shouldProcessEvent S1_scopes e)"
    by (simp add: shouldProcessEvent_def S1_computeScopes)
  from 1 2 3 4 5 show ?thesis by blast
qed

theorem computeScopes_clears_exactly_rejected_witness:
  "distinct (map ID S1_scopes) \<and>
   bit (MatchedScopes S1_event) 30 \<and> rejects (pidScope 30 502000 505000) S1_event \<and>
   \<not> bit (computeScopes S1_scopes S1_event) 30 \<and>
   bit (MatchedScopes S1_event) 59 \<and> \<not> rejects (pidScope 59 100 1257738) S1_event \<and>
   bit (computeScopes S1_scopes S1_event) 59 \<and>
   HostProcessID S1_event = 150 \<and>
   MatchedScopes (fst (shouldProcessEvent S1_scopes S1_event)) = push_bit 59 1 \<and>
   snd (shouldProcessEvent S1_scopes S1_event)"
proof -
  have d: "distinct (map ID S1_scopes)"
    by (simp add: S1_scopes_def pidScope_def)
  have r30: "rejects (pidScope 30 502000 505000) S1_event"
    by (simp add: rejects_def pidScope_def S1_event_def zeroEvent_def Enabled_def
        InMinMaxRange_def)
  have r59: "\<not> rejects (pidScope 59 100 1257738) S1_event"
    by (simp add: rejects_def pidScope_def S1_event_def zeroEvent_def Enabled_def
        InMinMaxRange_def)
  have b: "bit (MatchedScopes S1_event) 30" "bit (MatchedScopes S1_event) 59"
    by (simp_all add: S1_event_def zeroEvent_def bit_or_iff bit_push_bit_iff)
  have h: "HostProcessID S1_event = 150"
    "MatchedScopes S1_event = push_bit 30 1 OR push_bit 59 1"
    by (simp_all add: S1_event_def zeroEvent_def)
  note T = computeScopes_clears_exactly_rejected [OF d, of S1_event]
  have m: "pidScope 30 502000 505000 \<in> set S1_scopes" "pidScope 59 100 1257738 \<in> set S1_scopes"
    by (simp_all add: S1_scopes_def)
  have i: "ID (pidScope 30 502000 505000) = 30" "ID (pidScope 59 100 1257738) = 59"
    by (simp_all add: pidScope_def)
  from T m(1) b(1) r30 i(1) have c30: "\<not> bit (computeScopes S1_scopes S1_event) 30"
    by metis
  from T m(2) b(2) r59 i(2) have c59: "bit (computeScopes S1_scopes S1_event) 59"
    by metis
  from T h have f: "fst (shouldProcessEvent S1_scopes S1_event) =
      S1_event\<lparr>MatchedScopes := push_bit 59 1\<rparr> \<and> snd (shouldProcessEvent S1_scopes S1_event)"
    by blast
  then have g: "MatchedScopes (fst (shouldProcessEvent S1_scopes S1_event)) = push_bit 59 1"
    by simp
  from d b r30 r59 c30 c59 h(1) f g show ?thesis by blast
qed

text \<open>
  Claim C5. \<^verbatim>\<open>shouldProcessEvent\<close> is idempotent on its own output: a second call on
  the event the first call left gives the same \<^verbatim>\<open>MatchedScopes\<close> and the same verdict.
  The context filters are code outside the file and receive the whole event; the theorem
  asks of them that their verdict on this event does not depend on its
  \<^verbatim>\<open>MatchedScopes\<close> field, the only field the first call changes.
\<close>

theorem shouldProcessEvent_idempotent:
  assumes "\<forall>s\<in>set filterScopes. \<forall>m.
             ContextFilter s (e\<lparr>MatchedScopes := m\<rparr>) = ContextFilter s e"
  shows "shouldProcessEvent filterScopes (fst (shouldProcessEvent filterScopes e)) =
         shouldProcessEvent filterScopes e"
proof -
  let ?e' = "e\<lparr>MatchedScopes := computeScopes filterScopes e\<rparr>"
  have rej: "rejects s ?e' = rejects s e" if "s \<in> set filterScopes" for s
    using assms that by (simp add: rejects_def)
  have "computeScopes filterScopes ?e' = computeScopes filterScopes e"
    by (rule bit_eqI) (auto simp: bit_computeScopes rej)
  then show ?thesis
    by (simp add: shouldProcessEvent_def)
qed

theorem shouldProcessEvent_idempotent_witness:
  "(\<forall>m. ContextFilter (pidScope 30 502000 505000) (S1_event\<lparr>MatchedScopes := m\<rparr>) =
      ContextFilter (pidScope 30 502000 505000) S1_event) \<and>
   (\<forall>m. ContextFilter (pidScope 59 100 1257738) (S1_event\<lparr>MatchedScopes := m\<rparr>) =
      ContextFilter (pidScope 59 100 1257738) S1_event) \<and>
   MatchedScopes (fst (shouldProcessEvent S1_scopes S1_event)) \<noteq> MatchedScopes S1_event \<and>
   shouldProcessEvent S1_scopes (fst (shouldProcessEvent S1_scopes S1_event)) =
     shouldProcessEvent S1_scopes S1_event"
proof -
  have h: "\<forall>s\<in>set S1_scopes. \<forall>m. ContextFilter s (S1_event\<lparr>MatchedScopes := m\<rparr>) =
      ContextFilter s S1_event"
    by (simp add: S1_scopes_def pidScope_def)
  have c: "computeScopes S1_scopes S1_event = push_bit 59 1"
    by (rule S1_computeScopes) (simp_all add: S1_event_def zeroEvent_def)
  have n: "MatchedScopes (fst (shouldProcessEvent S1_scopes S1_event)) \<noteq> MatchedScopes S1_event"
    by (simp add: shouldProcessEvent_def c) (simp add: S1_event_def zeroEvent_def)
  have h': "\<forall>m. ContextFilter (pidScope 30 502000 505000) (S1_event\<lparr>MatchedScopes := m\<rparr>) =
      ContextFilter (pidScope 30 502000 505000) S1_event"
    "\<forall>m. ContextFilter (pidScope 59 100 1257738) (S1_event\<lparr>MatchedScopes := m\<rparr>) =
      ContextFilter (pidScope 59 100 1257738) S1_event"
    by (simp_all add: pidScope_def)
  show ?thesis
    using shouldProcessEvent_idempotent [OF h] h' n by blast
qed

text \<open>
  Claim C10. \<^verbatim>\<open>shouldProcessEvent\<close>, and \<^verbatim>\<open>computeScopes\<close> which it calls, change
  only the field \<^verbatim>\<open>MatchedScopes\<close> of the event: the event after the call is the event
  before it with that one field replaced, so \<^verbatim>\<open>Args\<close>, \<^verbatim>\<open>Timestamp\<close>,
  \<^verbatim>\<open>ContainerID\<close>, \<^verbatim>\<open>ReturnValue\<close> and every other field are unchanged.
\<close>

theorem shouldProcessEvent_frame:
  "fst (shouldProcessEvent filterScopes e) =
     e\<lparr>MatchedScopes := MatchedScopes (fst (shouldProcessEvent filterScopes e))\<rparr> \<and>
   Args (fst (shouldProcessEvent filterScopes e)) = Args e \<and>
   Timestamp (fst (shouldProcessEvent filterScopes e)) = Timestamp e \<and>
   ContainerID (fst (shouldProcessEvent filterScopes e)) = ContainerID e \<and>
   ReturnValue (fst (shouldProcessEvent filterScopes e)) = ReturnValue e"
  by (simp add: shouldProcessEvent_def)

section \<open>What getStackAddresses returns\<close>

declare getStackAddresses_loop.simps [simp del]
declare words_of.simps [simp del]

lemma words_of_short: "length bs < 8 \<Longrightarrow> words_of bs = []"
  by (subst words_of.simps) simp

lemma words_of_step:
  "i + 8 \<le> length bs \<Longrightarrow>
   words_of (drop i bs) = Uint64 (take 8 (drop i bs)) # words_of (drop (i + 8) bs)"
  by (subst words_of.simps) (simp add: add.commute)

lemma getStackAddresses_loop_result:
  "getStackAddresses_loop bs i sa k = Inr (sa', c) \<Longrightarrow> k \<le> length sa \<Longrightarrow>
   length sa' = length sa \<and> c \<le> length sa \<and>
   take c sa' = take k sa @ takeWhile (\<lambda>w. w \<noteq> 0) (words_of (drop i bs))"
proof (induction bs i sa k rule: getStackAddresses_loop.induct)
  case (1 bs i sa k)
  show ?case
  proof (cases "i < length bs")
    case False
    with "1.prems" show ?thesis
      by (simp add: getStackAddresses_loop.simps [of bs i sa k] words_of_short)
  next
    case True
    from True "1.prems"(1) have k: "k < length sa"
      by (auto simp: getStackAddresses_loop.simps [of bs i sa k] split: if_splits)
    from True "1.prems"(1) k have i: "i + 8 \<le> length bs"
      by (auto simp: getStackAddresses_loop.simps [of bs i sa k] stackFrameSize_def
          split: if_splits)
    let ?w = "Uint64 (take stackFrameSize (drop i bs))"
    have nk: "\<not> length sa \<le> k" and ni: "\<not> length bs < i + stackFrameSize"
      using k i by (simp_all add: stackFrameSize_def)
    have ws: "words_of (drop i bs) = ?w # words_of (drop (i + stackFrameSize) bs)"
      using words_of_step [OF i] by (simp add: stackFrameSize_def)
    show ?thesis
    proof (cases "?w = 0")
      case z: True
      with True nk ni "1.prems"(1) have "sa' = sa[k := 0]" "c = k"
        by (auto simp: getStackAddresses_loop.simps [of bs i sa k] Let_def)
      with k z ws show ?thesis by simp
    next
      case nz: False
      with True nk ni "1.prems"(1)
      have rec: "getStackAddresses_loop bs (i + stackFrameSize) (sa[k := 0, k := ?w]) (k + 1) =
                 Inr (sa', c)"
        by (auto simp: getStackAddresses_loop.simps [of bs i sa k] Let_def)
      have "length sa' = length (sa[k := 0, k := ?w]) \<and> c \<le> length (sa[k := 0, k := ?w]) \<and>
            take c sa' = take (k + 1) (sa[k := 0, k := ?w]) @
              takeWhile (\<lambda>w. w \<noteq> 0) (words_of (drop (i + stackFrameSize) bs))"
        using "1.IH" [OF True nk ni refl refl nz rec] k by simp
      with k nz ws show ?thesis
        by (simp add: take_Suc_conv_app_nth)
    qed
  qed
qed

lemma getStackAddresses_loop_returns:
  "length bs = 8 * n \<Longrightarrow> i = 8 * k \<Longrightarrow> k \<le> n \<Longrightarrow> n \<le> length sa \<Longrightarrow>
   \<exists>r. getStackAddresses_loop bs i sa k = Inr r"
proof (induction bs i sa k rule: getStackAddresses_loop.induct)
  case (1 bs i sa k)
  show ?case
  proof (cases "i < length bs")
    case False
    then show ?thesis
      by (simp add: getStackAddresses_loop.simps [of bs i sa k])
  next
    case True
    with "1.prems" have k: "k < n" by simp
    with "1.prems" have ks: "k < length sa" and i: "i + 8 \<le> length bs" by simp_all
    let ?w = "Uint64 (take stackFrameSize (drop i bs))"
    have nk: "\<not> length sa \<le> k" and ni: "\<not> length bs < i + stackFrameSize"
      using ks i by (simp_all add: stackFrameSize_def)
    show ?thesis
    proof (cases "?w = 0")
      case z: True
      with True nk ni show ?thesis
        by (simp add: getStackAddresses_loop.simps [of bs i sa k] Let_def)
    next
      case nz: False
      have "\<exists>r. getStackAddresses_loop bs (i + stackFrameSize) (sa[k := 0, k := ?w]) (k + 1) = Inr r"
      proof (rule "1.IH" [OF True nk ni refl refl nz "1.prems"(1)])
        show "i + stackFrameSize = 8 * (k + 1)"
          using "1.prems"(2) by (simp add: stackFrameSize_def)
        show "k + 1 \<le> n" using k by simp
        show "n \<le> length (sa[k := 0, k := ?w])" using "1.prems"(4) by simp
      qed
      with True nk ni nz show ?thesis
        by (simp add: getStackAddresses_loop.simps [of bs i sa k] Let_def)
    qed
  qed
qed

lemma length_words_of: "length (words_of bs) = length bs div 8"
proof (induction bs rule: words_of.induct)
  case (1 bs)
  show ?case
  proof (cases "length bs < 8")
    case True
    then show ?thesis by (simp add: words_of_short)
  next
    case False
    then have "words_of bs = Uint64 (take 8 bs) # words_of (drop 8 bs)"
      by (subst words_of.simps) simp
    with False "1.IH" show ?thesis by (simp add: le_div_geq)
  qed
qed

lemma length_wordBytes: "length (wordBytes b) = 8"
  by (simp add: wordBytes_def)

lemma words_of_wordBytes: "words_of (wordBytes b @ rest) = ucast b # words_of rest"
  by (subst words_of.simps) (simp add: wordBytes_def Uint64_def)

lemma words_of_wordBytes_last: "words_of (wordBytes b) = [ucast b]"
  using words_of_wordBytes [of b "[]"] by (simp add: words_of_short)

lemma getStackAddresses_loop_no_slice_panic:
  "8 dvd length bs \<Longrightarrow> 8 dvd i \<Longrightarrow>
   getStackAddresses_loop bs i sa k \<noteq> Inl SliceBoundsOutOfRange"
proof (induction bs i sa k rule: getStackAddresses_loop.induct)
  case (1 bs i sa k)
  show ?case
  proof (cases "i < length bs \<and> k < length sa")
    case False
    then show ?thesis
      by (auto simp: getStackAddresses_loop.simps [of bs i sa k])
  next
    case True
    then have lt: "i < length bs" and nk: "\<not> length sa \<le> k" by simp_all
    from "1.prems" lt have "i + 8 \<le> length bs" by presburger
    then have ni: "\<not> length bs < i + stackFrameSize" by (simp add: stackFrameSize_def)
    let ?w = "Uint64 (take stackFrameSize (drop i bs))"
    show ?thesis
    proof (cases "?w = 0")
      case z: True
      with lt nk ni show ?thesis
        by (simp add: getStackAddresses_loop.simps [of bs i sa k] Let_def)
    next
      case nz: False
      have "getStackAddresses_loop bs (i + stackFrameSize) (sa[k := 0, k := ?w]) (k + 1) \<noteq>
            Inl SliceBoundsOutOfRange"
      proof (rule "1.IH" [OF lt nk ni refl refl nz "1.prems"(1)])
        show "8 dvd i + stackFrameSize"
          using "1.prems"(2) by (simp add: stackFrameSize_def)
      qed
      with lt nk ni nz show ?thesis
        by (simp add: getStackAddresses_loop.simps [of bs i sa k] Let_def)
    qed
  qed
qed

lemma getStackAddresses_None:
  "StackAddressesMap st StackID = None \<Longrightarrow> getStackAddresses st StackID = Inr ([], st)"
  by (simp add: getStackAddresses_def)

lemma getStackAddresses_Inr:
  assumes m: "StackAddressesMap st StackID = Some stackBytes"
    and r: "getStackAddresses st StackID = Inr (r, st')"
  shows "r = takeWhile (\<lambda>w. w \<noteq> 0) (words_of stackBytes) \<and> length r \<le> maxStackDepth \<and>
         0 \<notin> set r"
proof -
  let ?sa = "replicate maxStackDepth (0 :: u64)"
  from m r obtain sa' c where
    l: "getStackAddresses_loop stackBytes 0 ?sa 0 = Inr (sa', c)" and rc: "r = take c sa'"
    by (auto simp: getStackAddresses_def split: sum.splits)
  from getStackAddresses_loop_result [OF l]
  have ls: "length sa' = maxStackDepth" and c: "c \<le> maxStackDepth"
    and t: "take c sa' = takeWhile (\<lambda>w. w \<noteq> 0) (words_of stackBytes)"
    by simp_all
  from rc t have eq: "r = takeWhile (\<lambda>w. w \<noteq> 0) (words_of stackBytes)"
    by simp
  from rc ls c have "length r = c" by simp
  with c have len: "length r \<le> maxStackDepth" by simp
  from eq have "0 \<notin> set r"
    by (auto dest: set_takeWhileD)
  with eq len show ?thesis by simp
qed

lemma getStackAddresses_returns:
  assumes m: "StackAddressesMap st StackID = Some stackBytes"
    and a: "8 dvd length stackBytes" and b: "length stackBytes \<le> 8 * maxStackDepth"
  shows "\<exists>st'. getStackAddresses st StackID =
           Inr (takeWhile (\<lambda>w. w \<noteq> 0) (words_of stackBytes), st')"
proof -
  from a obtain n where n: "length stackBytes = 8 * n" by (auto simp: dvd_def)
  with b have "n \<le> length (replicate maxStackDepth (0 :: u64))" by simp
  from getStackAddresses_loop_returns [OF n _ _ this, of 0 0]
  obtain sa' c where
    "getStackAddresses_loop stackBytes 0 (replicate maxStackDepth 0) 0 = Inr (sa', c)"
    by fastforce
  with m obtain r st' where r: "getStackAddresses st StackID = Inr (r, st')"
    by (simp add: getStackAddresses_def)
  from getStackAddresses_Inr [OF m r] r show ?thesis by auto
qed

lemma words_of_S4:
  "words_of S4_stackBytes =
     [1, 2, 3, 4, 5, 6, 7, 8, 9, 10, 11, 12, 13, 14, 15, 16, 17, 18, 19, 20, 21, 22, 23, 24,
      25, 0]"
  by (simp add: S4_stackBytes_def words_of_wordBytes words_of_wordBytes_last)

lemma words_of_full:
  "words_of full_stackBytes =
     [1, 2, 3, 4, 5, 6, 7, 8, 9, 10, 11, 12, 13, 14, 15, 16, 17, 18, 19, 20]"
  by (simp add: full_stackBytes_def words_of_wordBytes words_of_wordBytes_last)

lemma length_S4: "length S4_stackBytes = 208"
  by (simp add: S4_stackBytes_def length_wordBytes)

lemma length_full: "length full_stackBytes = 160"
  by (simp add: full_stackBytes_def length_wordBytes)

text \<open>
  Claim C2, as stated, fails on scenario S4: with 25 non-zero words followed by a zero
  word the loop reaches \<^verbatim>\<open>StackAddresses[20] = 0\<close> on a slice of length 20, and the
  call panics instead of returning the first 20 addresses.
\<close>

theorem getStackAddresses_S4_panics:
  "getStackAddresses (stackState S4_stackBytes) 7 = Inl IndexOutOfRange"
proof -
  let ?st = "stackState S4_stackBytes"
  have m: "StackAddressesMap ?st 7 = Some S4_stackBytes"
    by (simp add: stackState_def)
  have "getStackAddresses ?st 7 \<noteq> Inr x" for x
  proof
    assume "getStackAddresses ?st 7 = Inr x"
    then have "getStackAddresses ?st 7 = Inr (fst x, snd x)" by simp
    note g = getStackAddresses_Inr [OF m this]
    from g have e: "fst x = takeWhile (\<lambda>w. w \<noteq> 0) (words_of S4_stackBytes)"
      by (rule conjunct1)
    from g have l: "length (fst x) \<le> maxStackDepth"
      by (blast intro: conjunct1 conjunct2)
    have "length (takeWhile (\<lambda>w. w \<noteq> 0) (words_of S4_stackBytes)) = 25"
      by (simp add: words_of_S4)
    with e have "length (fst x) = 25" by simp
    with l show False by (simp add: maxStackDepth_def)
  qed
  moreover have "getStackAddresses ?st 7 \<noteq> Inl SliceBoundsOutOfRange"
    using getStackAddresses_loop_no_slice_panic
      [of S4_stackBytes 0 "replicate maxStackDepth 0" 0]
    by (auto simp: getStackAddresses_def stackState_def length_S4 split: sum.splits)
  ultimately show ?thesis
    by (cases "getStackAddresses ?st 7") (auto intro: panic.exhaust)
qed

text \<open>
  Claim C2, amended. Whenever \<^verbatim>\<open>getStackAddresses\<close> returns for a stack id the table
  holds, the result is the sequence of the words before the first zero word, of at most 20
  addresses, none of them zero. It returns for every entry of whole 8-byte words that is
  not longer than 20 words, the size of an entry of the table; in particular, for an entry
  of 20 non-zero words the result is exactly these 20 addresses.
\<close>

theorem getStackAddresses_words_before_zero:
  assumes "StackAddressesMap st StackID = Some stackBytes"
  shows "(\<forall>r st'. getStackAddresses st StackID = Inr (r, st') \<longrightarrow>
            r = takeWhile (\<lambda>w. w \<noteq> 0) (words_of stackBytes) \<and>
            length r \<le> maxStackDepth \<and> 0 \<notin> set r) \<and>
         (8 dvd length stackBytes \<and> length stackBytes \<le> 8 * maxStackDepth \<longrightarrow>
            (\<exists>st'. getStackAddresses st StackID =
               Inr (takeWhile (\<lambda>w. w \<noteq> 0) (words_of stackBytes), st'))) \<and>
         (length stackBytes = 8 * maxStackDepth \<and> 0 \<notin> set (words_of stackBytes) \<longrightarrow>
            (\<exists>st'. getStackAddresses st StackID = Inr (words_of stackBytes, st')) \<and>
            length (words_of stackBytes) = 20)"
proof -
  have 1: "\<forall>r st'. getStackAddresses st StackID = Inr (r, st') \<longrightarrow>
            r = takeWhile (\<lambda>w. w \<noteq> 0) (words_of stackBytes) \<and>
            length r \<le> maxStackDepth \<and> 0 \<notin> set r"
    using getStackAddresses_Inr [OF assms] by blast
  have 2: "8 dvd length stackBytes \<and> length stackBytes \<le> 8 * maxStackDepth \<longrightarrow>
            (\<exists>st'. getStackAddresses st StackID =
               Inr (takeWhile (\<lambda>w. w \<noteq> 0) (words_of stackBytes), st'))"
    using getStackAddresses_returns [OF assms] by blast
  have 3: "length stackBytes = 8 * maxStackDepth \<and> 0 \<notin> set (words_of stackBytes) \<longrightarrow>
            (\<exists>st'. getStackAddresses st StackID = Inr (words_of stackBytes, st')) \<and>
            length (words_of stackBytes) = 20"
  proof
    assume h: "length stackBytes = 8 * maxStackDepth \<and> 0 \<notin> set (words_of stackBytes)"
    then have tw: "takeWhile (\<lambda>w. w \<noteq> 0) (words_of stackBytes) = words_of stackBytes"
      by (auto intro: takeWhile_eq_all_conv [THEN iffD2])
    from h obtain st' where "getStackAddresses st StackID =
               Inr (takeWhile (\<lambda>w. w \<noteq> 0) (words_of stackBytes), st')"
      using getStackAddresses_returns [OF assms] by auto
    then have "getStackAddresses st StackID = Inr (words_of stackBytes, st')"
      by (simp only: tw)
    moreover from h have "length (words_of stackBytes) = 20"
      by (simp add: length_words_of maxStackDepth_def)
    ultimately show "(\<exists>st'. getStackAddresses st StackID = Inr (words_of stackBytes, st')) \<and>
            length (words_of stackBytes) = 20"
      by blast
  qed
  from 1 2 3 show ?thesis by blast
qed

theorem getStackAddresses_words_before_zero_witness:
  "StackAddressesMap (stackState full_stackBytes) 7 = Some full_stackBytes \<and>
   length full_stackBytes = 8 * maxStackDepth \<and>
   (\<exists>st'. getStackAddresses (stackState full_stackBytes) 7 =
      Inr ([1, 2, 3, 4, 5, 6, 7, 8, 9, 10, 11, 12, 13, 14, 15, 16, 17, 18, 19, 20], st'))"
proof -
  have m: "StackAddressesMap (stackState full_stackBytes) 7 = Some full_stackBytes"
    by (simp add: stackState_def)
  have l: "length full_stackBytes = 8 * maxStackDepth"
    by (simp add: length_full maxStackDepth_def)
  have z: "0 \<notin> set (words_of full_stackBytes)"
    by (simp add: words_of_full)
  from getStackAddresses_words_before_zero [OF m] l z
  have "\<exists>st'. getStackAddresses (stackState full_stackBytes) 7 =
      Inr (words_of full_stackBytes, st')"
    by blast
  with m l show ?thesis by (simp add: words_of_full)
qed

section \<open>What the decoder emits\<close>

lemma computeScopes_Nil: "computeScopes [] e = MatchedScopes e"
  by (simp add: computeScopes_def)

lemma zeroConfig_fields:
  "Output_StackAddresses zeroConfig = False" "Output_RelativeTime zeroConfig = False"
  "FilterScopes zeroConfig = []" "ContainerFilterEnabled zeroConfig = 0"
  "EngineConfig_Enabled zeroConfig = False" "Output_ParseArguments zeroConfig = False"
  by (simp_all add: zeroConfig_def)

lemma stubTracee_fields:
  "DecodeContext (stubTracee cfg ctx) dataRaw = Inr (ctx, dataRaw)"
  "GetSafe (stubTracee cfg ctx) eventId = Some \<lparr>Def_Name = ''event'', Params = []\<rparr>"
  "config (stubTracee cfg ctx) = cfg"
  "eventDerivations (stubTracee cfg ctx) = Map.empty"
  "startTime (stubTracee cfg ctx) = 1000"
  "bootTime (stubTracee cfg ctx) = 1000000000"
  "processEvent (stubTracee cfg ctx) e = (e, [])"
  "ParseArgs (stubTracee cfg ctx) e = (e, None)"
  "ParseArgsFDs (stubTracee cfg ctx) e = (e, None)"
  "events (stubTracee cfg ctx) eventId = Some \<lparr>emit = 1\<rparr>"
  by (simp_all add: stubTracee_def)

lemma shortPayload_decodeArgs:
  "decodeArgs (stubTracee zeroConfig shortPayload_context) 0 [] 2 zeroState [7] [] =
     (handleError zeroState (Error ''failed to read argument''), [],
      [\<lparr>ArgMeta = \<lparr>Name = ''arg'', Type = ''u8''\<rparr>, Value = IntValue 7\<rparr>])"
proof -
  have "decodeArgs (stubTracee zeroConfig shortPayload_context) 0 [] (Suc (Suc 0)) zeroState [7] [] =
     (handleError zeroState (Error ''failed to read argument''), [],
      [\<lparr>ArgMeta = \<lparr>Name = ''arg'', Type = ''u8''\<rparr>, Value = IntValue 7\<rparr>])"
    by (simp add: stubTracee_def stubReadArg_def)
  then show ?thesis by (simp only: numeral_2_eq_2)
qed

text \<open>
  Claim C1 asks that a record with an argument that fails to decode emits no event. The
  \<^verbatim>\<open>continue\<close> after \<^verbatim>\<open>handleError\<close> stands in the argument loop and only skips the
  argument: for a header that announces two arguments and a payload that holds one, the
  second read fails, \<^verbatim>\<open>ErrorCount\<close> becomes 1, and the event is sent all the same, with
  one argument and \<^verbatim>\<open>ArgsNum = 2\<close>.
\<close>

theorem decodeEvents_sends_event_after_failed_argument:
  "(case decodeEvents_step (stubTracee zeroConfig shortPayload_context) zeroState [7] False of
      Inr (st, Sent evt) \<Rightarrow>
        ErrorCount (stats st) = 1 \<and> length (Args evt) = 1 \<and> ArgsNum evt = 2
    | _ \<Rightarrow> False)"
proof -
  have a: "unat (ctx_Argnum shortPayload_context) = 2" "ctx_Argnum shortPayload_context = 2"
    "ctx_EventID shortPayload_context = 0" "ctx_MatchedScopes shortPayload_context = 1"
    by (simp_all add: shortPayload_context_def zeroContext_def)
  show ?thesis
    by (simp add: decodeEvents_step_def stubTracee_fields zeroConfig_fields a shortPayload_decodeArgs
        shouldProcessEvent_def computeScopes_Nil makeEvent_def normalizeTime_def
        select_send_def)
      (simp add: Let_def handleError_def Increment_def zeroState_def zeroStats_def)
qed

lemma decodeEvents_step_Sent:
  assumes "decodeEvents_step t st dataRaw done = Inr (st', Sent evt)"
    and "DecodeContext t dataRaw = Inr (ctx, payload)"
  shows "\<exists>eventDefinition args stackAddrs.
           evt = (makeEvent (normalizeTime t ctx)
                    (GetCgroupInfo t (ctx_CgroupID (normalizeTime t ctx)))
                    eventDefinition args stackAddrs)\<lparr>MatchedScopes := MatchedScopes evt\<rparr> \<and>
           scopes_subset (MatchedScopes evt) (ctx_MatchedScopes ctx)"
proof -
  have n: "ctx_MatchedScopes (normalizeTime t ctx) = ctx_MatchedScopes ctx"
    by (simp add: normalizeTime_def)
  have s: "scopes_subset (computeScopes ss e) (ctx_MatchedScopes ctx)"
    if "MatchedScopes e = ctx_MatchedScopes ctx" for ss e
    using computeScopes_subset [of ss e] that by simp
  have r: "scopes_subset (ctx_MatchedScopes ctx) (ctx_MatchedScopes ctx)"
    by (simp add: scopes_subset_def)
  from assms show ?thesis
    by (auto simp: decodeEvents_step_def Let_def select_send_def shouldProcessEvent_def
        makeEvent_def n s r
        split: option.splits prod.splits sum.splits if_splits)
qed

text \<open>
  Claim C6. An event the decoder sends has its timestamps normalised in exactly one of two
  modes, chosen by \<^verbatim>\<open>Output.RelativeTime\<close>: in relative mode \<^verbatim>\<open>startTime\<close> is
  subtracted from both \<^verbatim>\<open>Ts\<close> and \<^verbatim>\<open>StartTime\<close>, otherwise \<^verbatim>\<open>bootTime\<close> is added
  to both (64-bit unsigned arithmetic, read as \<^verbatim>\<open>int\<close>). With a start epoch of 1000 a
  raw \<^verbatim>\<open>Ts\<close> of 1500 gives the timestamp 500; with a boot time of \<open>10^9\<close> it gives
  \<open>10^9 + 1500\<close>.
\<close>

theorem decodeEvents_timestamps:
  assumes "decodeEvents_step t st dataRaw done = Inr (st', Sent evt)"
    and "DecodeContext t dataRaw = Inr (ctx, payload)"
  shows "(Output_RelativeTime (config t) \<longrightarrow>
            Timestamp evt = ctx_Ts ctx - startTime t \<and>
            ThreadStartTime evt = ctx_StartTime ctx - startTime t) \<and>
         (\<not> Output_RelativeTime (config t) \<longrightarrow>
            Timestamp evt = ctx_Ts ctx + bootTime t \<and>
            ThreadStartTime evt = ctx_StartTime ctx + bootTime t) \<and>
         (Output_RelativeTime (config t) \<and> startTime t = 1000 \<and> ctx_Ts ctx = 1500 \<longrightarrow>
            sint (Timestamp evt) = 500) \<and>
         (\<not> Output_RelativeTime (config t) \<and> bootTime t = 1000000000 \<and> ctx_Ts ctx = 1500 \<longrightarrow>
            sint (Timestamp evt) = 1000000000 + 1500)"
proof -
  from decodeEvents_step_Sent [OF assms] obtain eventDefinition args stackAddrs where
    e: "evt = (makeEvent (normalizeTime t ctx)
                 (GetCgroupInfo t (ctx_CgroupID (normalizeTime t ctx)))
                 eventDefinition args stackAddrs)\<lparr>MatchedScopes := MatchedScopes evt\<rparr>"
    by blast
  have ts: "Timestamp evt = ctx_Ts (normalizeTime t ctx)"
    and st: "ThreadStartTime evt = ctx_StartTime (normalizeTime t ctx)"
    by (subst e, simp add: makeEvent_def)+
  show ?thesis
    by (auto simp: ts st normalizeTime_def)
qed

theorem decodeEvents_timestamps_witness:
  "(case decodeEvents_step (stubTracee (zeroConfig\<lparr>Output_RelativeTime := True\<rparr>) S5_context)
           zeroState [] False of
      Inr (st, Sent evt) \<Rightarrow> sint (Timestamp evt) = 500 \<and> sint (ThreadStartTime evt) = 200
    | _ \<Rightarrow> False) \<and>
   (case decodeEvents_step (stubTracee zeroConfig S5_context) zeroState [] False of
      Inr (st, Sent evt) \<Rightarrow>
        sint (Timestamp evt) = 1000001500 \<and> sint (ThreadStartTime evt) = 1000001200
    | _ \<Rightarrow> False)"
proof -
  let ?r = "stubTracee (zeroConfig\<lparr>Output_RelativeTime := True\<rparr>) S5_context"
  let ?a = "stubTracee zeroConfig S5_context"
  have tr: "DecodeContext ?r [] = Inr (S5_context, [])"
    and ta: "DecodeContext ?a [] = Inr (S5_context, [])"
    by (simp_all add: stubTracee_fields)
  have c: "unat (ctx_Argnum S5_context) = 0" "ctx_EventID S5_context = 0"
    "ctx_Ts S5_context = 1500" "ctx_StartTime S5_context = 1200"
    "ctx_MatchedScopes S5_context = 1"
    by (simp_all add: S5_context_def zeroContext_def)
  have cr: "Output_StackAddresses (zeroConfig\<lparr>Output_RelativeTime := True\<rparr>) = False"
    "Output_RelativeTime (zeroConfig\<lparr>Output_RelativeTime := True\<rparr>) = True"
    "FilterScopes (zeroConfig\<lparr>Output_RelativeTime := True\<rparr>) = []"
    by (simp_all add: zeroConfig_def)
  obtain er where er: "decodeEvents_step ?r zeroState [] False = Inr (zeroState, Sent er)"
    by (simp add: decodeEvents_step_def stubTracee_fields cr c shouldProcessEvent_def
        computeScopes_Nil makeEvent_def normalizeTime_def select_send_def Let_def)
  obtain ea where ea: "decodeEvents_step ?a zeroState [] False = Inr (zeroState, Sent ea)"
    by (simp add: decodeEvents_step_def stubTracee_fields zeroConfig_fields c
        shouldProcessEvent_def computeScopes_Nil makeEvent_def normalizeTime_def
        select_send_def Let_def)
  from decodeEvents_timestamps [OF er tr] c cr
  have "sint (Timestamp er) = 500 \<and> sint (ThreadStartTime er) = 200"
    by (simp add: stubTracee_fields)
  moreover from decodeEvents_timestamps [OF ea ta] c
  have "sint (Timestamp ea) = 1000001500 \<and> sint (ThreadStartTime ea) = 1000001200"
    by (simp add: stubTracee_fields zeroConfig_fields)
  ultimately show ?thesis
    by (simp add: er ea)
qed

section \<open>What the processor forwards\<close>

text \<open>
  Claim C7. For an event whose side effects gave no error: when some scope has a container
  filter (\<^verbatim>\<open>ContainerFilterEnabled() > 0\<close>), the event has no container id and its id is
  neither \<^verbatim>\<open>cgroup_mkdir\<close> nor \<^verbatim>\<open>cgroup_rmdir\<close>, the bits of all scopes with a
  container filter are cleared from \<^verbatim>\<open>MatchedScopes\<close>, and the event is dropped exactly
  when the bitmap becomes zero and is otherwise forwarded with the cleared bitmap. An
  event of one of the two cgroup ids is forwarded as it is, and so is every event when no
  scope has a container filter or the event has a container id.
\<close>

theorem processEvents_false_container_positive:
  assumes "processEvent t event0 = (event, [])"
  shows "(0 < ContainerFilterEnabled (config t) \<and> ContainerID event = [] \<and>
          ucast (EventID event) \<noteq> CgroupMkdir ids \<and>
          ucast (EventID event) \<noteq> CgroupRmdir ids \<longrightarrow>
            processEvents_step t ids st event0 done =
              (if ClearBits (MatchedScopes event) (ContainerFilterEnabled (config t)) = 0
               then (st, Dropped)
               else (st, select_send done
                      (event\<lparr>MatchedScopes :=
                         ClearBits (MatchedScopes event) (ContainerFilterEnabled (config t))\<rparr>))) \<and>
            (\<forall>j. bit (ClearBits (MatchedScopes event) (ContainerFilterEnabled (config t))) j =
                 (bit (MatchedScopes event) j \<and> \<not> bit (ContainerFilterEnabled (config t)) j))) \<and>
         (ucast (EventID event) = CgroupMkdir ids \<or> ucast (EventID event) = CgroupRmdir ids \<longrightarrow>
            processEvents_step t ids st event0 done = (st, select_send done event)) \<and>
         (ContainerFilterEnabled (config t) = 0 \<or> ContainerID event \<noteq> [] \<longrightarrow>
            processEvents_step t ids st event0 done = (st, select_send done event))"
  using assms
  by (auto simp: processEvents_step_def Let_def bit_ClearBits word_greater_zero_iff)

theorem processEvents_false_container_positive_witness:
  "processEvent (stubTracee S2_config zeroContext) S2_event = (S2_event, []) \<and>
   processEvents_step (stubTracee S2_config zeroContext) exampleIDs zeroState S2_event False =
     (zeroState, Sent (S2_event\<lparr>MatchedScopes := 1\<rparr>)) \<and>
   processEvents_step (stubTracee S2_config zeroContext) exampleIDs zeroState
       (S2_event\<lparr>MatchedScopes := push_bit 7 1\<rparr>) False =
     (zeroState, Dropped) \<and>
   processEvents_step (stubTracee S2_config zeroContext) exampleIDs zeroState
       (S2_event\<lparr>EventID := 1\<rparr>) False =
     (zeroState, Sent (S2_event\<lparr>EventID := 1\<rparr>))"
proof -
  let ?t = "stubTracee S2_config zeroContext"
  have p: "processEvent ?t e = (e, [])" for e
    by (simp add: stubTracee_fields)
  have c: "0 < ContainerFilterEnabled (config ?t)"
    "ContainerFilterEnabled (config ?t) = push_bit 7 1"
    by (simp_all add: stubTracee_fields S2_config_def)
  have e: "ContainerID S2_event = []" "ucast (EventID S2_event) \<noteq> CgroupMkdir exampleIDs"
    "ucast (EventID S2_event) \<noteq> CgroupRmdir exampleIDs"
    "ClearBits (MatchedScopes S2_event) (push_bit 7 1) = 1"
    by (simp_all add: S2_event_def zeroEvent_def exampleIDs_def ClearBits_def)
  have e': "ContainerID (S2_event\<lparr>MatchedScopes := push_bit 7 1\<rparr>) = []"
    "ucast (EventID (S2_event\<lparr>MatchedScopes := push_bit 7 1\<rparr>)) \<noteq> CgroupMkdir exampleIDs"
    "ucast (EventID (S2_event\<lparr>MatchedScopes := push_bit 7 1\<rparr>)) \<noteq> CgroupRmdir exampleIDs"
    "ClearBits (MatchedScopes (S2_event\<lparr>MatchedScopes := push_bit 7 1\<rparr>)) (push_bit 7 1) = 0"
    by (simp_all add: S2_event_def zeroEvent_def exampleIDs_def ClearBits_def)
  have m: "ucast (EventID (S2_event\<lparr>EventID := 1\<rparr>)) = CgroupMkdir exampleIDs"
    by (simp add: exampleIDs_def)
  from processEvents_false_container_positive [OF p, of S2_event exampleIDs zeroState False]
    c e
  have 1: "processEvents_step ?t exampleIDs zeroState S2_event False =
     (zeroState, Sent (S2_event\<lparr>MatchedScopes := 1\<rparr>))"
    by (simp add: select_send_def)
  from processEvents_false_container_positive
    [OF p, of "S2_event\<lparr>MatchedScopes := push_bit 7 1\<rparr>" exampleIDs zeroState False] c e'
  have 2: "processEvents_step ?t exampleIDs zeroState
       (S2_event\<lparr>MatchedScopes := push_bit 7 1\<rparr>) False = (zeroState, Dropped)"
    by simp
  from processEvents_false_container_positive
    [OF p, of "S2_event\<lparr>EventID := 1\<rparr>" exampleIDs zeroState False] m
  have 3: "processEvents_step ?t exampleIDs zeroState (S2_event\<lparr>EventID := 1\<rparr>) False =
     (zeroState, Sent (S2_event\<lparr>EventID := 1\<rparr>))"
    by (simp add: select_send_def)
  from p 1 2 3 show ?thesis by simp
qed

section \<open>What the sink sends\<close>

lemma handleError_EventCount: "EventCount (stats (handleError st err)) = EventCount (stats st)"
  by (simp add: handleError_def)

lemma sinkEvents_step_masked:
  "sinkEvents_step t st event0 done =
     (if MatchedScopes (emit_masked t event0) = 0 then (st, Dropped)
      else (case sink_parse t st (emit_masked t event0) of
              (st1, event') \<Rightarrow>
                if done then (st1, Stopped)
                else (st1\<lparr>stats := (stats st1)
                         \<lparr>EventCount := Increment (EventCount (stats st1))\<rparr>\<rparr>,
                      Sent event')))"
  by (simp add: sinkEvents_step_def emit_masked_def Let_def)

text \<open>
  Claim C9. The sink replaces \<^verbatim>\<open>MatchedScopes\<close> by its bitwise AND with the emit mask of
  the event id. If the result is zero the event is dropped and the state, with
  \<^verbatim>\<open>EventCount\<close>, is unchanged. Otherwise, when the rule engine is disabled the event sent
  is the one \<^verbatim>\<open>parseArguments\<close> leaves (an error of it is counted), and when it is
  enabled the masked event is sent untouched by \<^verbatim>\<open>parseArguments\<close>. \<^verbatim>\<open>EventCount\<close> grows
  by one exactly when the turn sends an event, and not when it drops one or stops on
  cancellation.
\<close>

theorem sinkEvents_masks_parses_counts:
  "MatchedScopes (emit_masked t event0) =
     MatchedScopes event0 AND emit_of t (ucast (EventID event0)) \<and>
   (MatchedScopes (emit_masked t event0) = 0 \<longrightarrow>
      sinkEvents_step t st event0 done = (st, Dropped)) \<and>
   (MatchedScopes (emit_masked t event0) \<noteq> 0 \<and> \<not> EngineConfig_Enabled (config t) \<longrightarrow>
      sinkEvents_step t st event0 False =
        (case parseArguments t (emit_masked t event0) of
           (event', err) \<Rightarrow>
             let st1 = (case err of None \<Rightarrow> st | Some x \<Rightarrow> handleError st x)
             in (st1\<lparr>stats := (stats st1)\<lparr>EventCount := EventCount (stats st1) + 1\<rparr>\<rparr>,
                 Sent event'))) \<and>
   (MatchedScopes (emit_masked t event0) \<noteq> 0 \<and> EngineConfig_Enabled (config t) \<longrightarrow>
      sinkEvents_step t st event0 False =
        (st\<lparr>stats := (stats st)\<lparr>EventCount := EventCount (stats st) + 1\<rparr>\<rparr>,
         Sent (emit_masked t event0))) \<and>
   EventCount (stats (fst (sinkEvents_step t st event0 done))) =
     (case snd (sinkEvents_step t st event0 done) of
        Sent event' \<Rightarrow> EventCount (stats st) + 1
      | _ \<Rightarrow> EventCount (stats st))"
proof -
  have 1: "MatchedScopes (emit_masked t event0) =
     MatchedScopes event0 AND emit_of t (ucast (EventID event0))"
    by (simp add: emit_masked_def)
  have 2: "MatchedScopes (emit_masked t event0) = 0 \<longrightarrow>
      sinkEvents_step t st event0 done = (st, Dropped)"
    by (simp add: sinkEvents_step_masked)
  have 3: "MatchedScopes (emit_masked t event0) \<noteq> 0 \<and> \<not> EngineConfig_Enabled (config t) \<longrightarrow>
      sinkEvents_step t st event0 False =
        (case parseArguments t (emit_masked t event0) of
           (event', err) \<Rightarrow>
             let st1 = (case err of None \<Rightarrow> st | Some x \<Rightarrow> handleError st x)
             in (st1\<lparr>stats := (stats st1)\<lparr>EventCount := EventCount (stats st1) + 1\<rparr>\<rparr>,
                 Sent event'))"
    by (auto simp: sinkEvents_step_masked sink_parse_def Increment_def Let_def
        split: prod.splits option.splits)
  have 4: "MatchedScopes (emit_masked t event0) \<noteq> 0 \<and> EngineConfig_Enabled (config t) \<longrightarrow>
      sinkEvents_step t st event0 False =
        (st\<lparr>stats := (stats st)\<lparr>EventCount := EventCount (stats st) + 1\<rparr>\<rparr>,
         Sent (emit_masked t event0))"
    by (simp add: sinkEvents_step_masked sink_parse_def Increment_def)
  have 5: "EventCount (stats (fst (sinkEvents_step t st event0 done))) =
     (case snd (sinkEvents_step t st event0 done) of
        Sent event' \<Rightarrow> EventCount (stats st) + 1
      | _ \<Rightarrow> EventCount (stats st))"
    by (auto simp: sinkEvents_step_masked sink_parse_def Increment_def
        handleError_EventCount split: prod.splits option.splits)
  from 1 2 3 4 5 show ?thesis by blast
qed

theorem sinkEvents_masks_parses_counts_witness:
  "sinkEvents_step (stubTracee zeroConfig zeroContext) zeroState
       (zeroEvent\<lparr>MatchedScopes := 3\<rparr>) False =
     (zeroState\<lparr>stats := zeroStats\<lparr>EventCount := 1\<rparr>\<rparr>, Sent (zeroEvent\<lparr>MatchedScopes := 1\<rparr>)) \<and>
   sinkEvents_step (stubTracee zeroConfig zeroContext) zeroState
       (zeroEvent\<lparr>MatchedScopes := 2\<rparr>) False =
     (zeroState, Dropped)"
proof -
  let ?t = "stubTracee zeroConfig zeroContext"
  have em: "emit_of ?t x = 1" for x
    by (simp add: emit_of_def stubTracee_fields)
  have m3: "emit_masked ?t (zeroEvent\<lparr>MatchedScopes := 3\<rparr>) = zeroEvent\<lparr>MatchedScopes := 1\<rparr>"
    and m2: "emit_masked ?t (zeroEvent\<lparr>MatchedScopes := 2\<rparr>) = zeroEvent\<lparr>MatchedScopes := 0\<rparr>"
    by (simp_all add: emit_masked_def em)
  have pa: "parseArguments ?t e = (e, None)" for e
    by (simp add: parseArguments_def stubTracee_fields zeroConfig_fields)
  have en: "\<not> EngineConfig_Enabled (config ?t)"
    by (simp add: stubTracee_fields zeroConfig_fields)
  from sinkEvents_masks_parses_counts [of ?t "zeroEvent\<lparr>MatchedScopes := 3\<rparr>" zeroState False]
    en
  have 1: "sinkEvents_step ?t zeroState (zeroEvent\<lparr>MatchedScopes := 3\<rparr>) False =
     (zeroState\<lparr>stats := zeroStats\<lparr>EventCount := 1\<rparr>\<rparr>, Sent (zeroEvent\<lparr>MatchedScopes := 1\<rparr>))"
    by (simp add: m3 pa) (simp add: zeroState_def zeroStats_def)
  from sinkEvents_masks_parses_counts [of ?t "zeroEvent\<lparr>MatchedScopes := 2\<rparr>" zeroState False]
  have 2: "sinkEvents_step ?t zeroState (zeroEvent\<lparr>MatchedScopes := 2\<rparr>) False =
     (zeroState, Dropped)"
    by (simp add: m2)
  from 1 2 show ?thesis by simp
qed

section \<open>What the deriver sends\<close>

lemma in_set_map_filter:
  "y \<in> set (List.map_filter f xs) \<longleftrightarrow> (\<exists>x\<in>set xs. f x = Some y)"
  by (induction xs) (auto split: option.splits)

lemma deriveEvents_loop_at_send:
  "map at_send (snd (snd (deriveEvents_loop t ids st h ds))) =
     List.map_filter (derivative_sent t ids) ds"
  by (induction ds arbitrary: st h)
    (simp_all add: derivative_sent_def exempt_def Let_def case_prod_beta)

lemma deriveEvents_loop_ptr:
  "s \<in> set (snd (snd (deriveEvents_loop t ids st h ds))) \<Longrightarrow> ptr s = DerivativeAddr"
  by (induction ds arbitrary: st h)
    (auto simp: Let_def case_prod_beta split: if_splits)

lemma deriveEvents_loop_state:
  "fst (deriveEvents_loop t ids st h ds) =
     st\<lparr>stats := (stats st)\<lparr>EventsFiltered :=
        EventsFiltered (stats st) + of_nat (length (filter (derivative_filtered t ids) ds))\<rparr>\<rparr>"
  by (induction ds arbitrary: st h)
    (simp_all add: derivative_filtered_def exempt_def Let_def Increment_def case_prod_beta
      add.assoc)

lemma deriveEvents_loop_heap_event:
  "fst (snd (deriveEvents_loop t ids st h ds)) EventAddr = h EventAddr"
  by (induction ds arbitrary: st h) (simp_all add: Let_def case_prod_beta)

lemma deriveEvents_loop_heap_derivative:
  "ds \<noteq> [] \<Longrightarrow>
   fst (snd (deriveEvents_loop t ids st h ds)) DerivativeAddr = derivative_left t ids (last ds)"
proof (induction ds arbitrary: st h)
  case Nil
  then show ?case by simp
next
  case (Cons d rest)
  show ?case
  proof (cases "rest = []")
    case True
    then show ?thesis
      by (simp add: derivative_left_def exempt_def Let_def case_prod_beta)
  next
    case False
    with Cons.IH show ?thesis
      by (simp add: Let_def case_prod_beta)
  qed
qed

lemma deriveEvents_loop_sends_nonempty:
  "s \<in> set (snd (snd (deriveEvents_loop t ids st h ds))) \<Longrightarrow> ds \<noteq> []"
  by (cases ds) simp_all

text \<open>
  Claim C8 asks that the derivatives reaching the stage downstream are the exempt ones and
  those \<^verbatim>\<open>shouldProcessEvent\<close> accepts, and that a rejected derivative is not emitted. The
  loop decides so, but what it sends is \<^verbatim>\<open>&derivative\<close>, the address of its one variable.
  In scenario S3 the first derivative (\<^verbatim>\<open>symbols_loaded\<close>) is sent, the next turn copies
  the second derivative into the same variable and \<^verbatim>\<open>shouldProcessEvent\<close> rejects it,
  writing \<^verbatim>\<open>MatchedScopes = 0\<close> there: the pointer sent for the \<^verbatim>\<open>symbols_loaded\<close>
  derivative now points to the rejected derivative, which the receiver reads in its place.
\<close>

theorem deriveEvents_sent_pointer_overwritten:
  "(case deriveEvents_step S3_tracee exampleIDs zeroState S3_heap of
      (st, h, out) \<Rightarrow>
        map ptr out = [EventAddr, DerivativeAddr] \<and>
        map at_send out = [S3_event, S3_event\<lparr>EventID := 3\<rparr>] \<and>
        map (deref h) out = [S3_event, S3_event\<lparr>EventID := 6, MatchedScopes := 0\<rparr>] \<and>
        EventsFiltered (stats st) = 1)"
proof -
  have fs: "FilterScopes (config S3_tracee) = [pidScope 30 502000 505000]"
    by (simp add: S3_tracee_def stubTracee_def)
  have e: "S3_heap EventAddr = S3_event"
    by (simp add: S3_heap_def)
  have d: "DeriveEvent S3_tracee S3_event =
             ([S3_event\<lparr>EventID := 3\<rparr>, S3_event\<lparr>EventID := 6\<rparr>], [])"
    by (simp add: DeriveEvent_def S3_tracee_def S3_event_def)
  have c: "computeScopes [pidScope 30 502000 505000] (S3_event\<lparr>EventID := 6\<rparr>) = 0"
    by (simp add: computeScopes_def computeScopes_body_def pidScope_def S3_event_def
        zeroEvent_def HasBit_def ClearBit_def Enabled_def InMinMaxRange_def)
  have i: "SymbolsLoaded exampleIDs = 3" "SharedObjectLoaded exampleIDs = 4"
    "PrintMemDump exampleIDs = 5"
    by (simp_all add: exampleIDs_def)
  show ?thesis
    by (simp add: deriveEvents_step_def e d fs i c shouldProcessEvent_def Let_def deref_def
        Increment_def)
      (simp add: zeroState_def zeroStats_def)
qed

section \<open>MatchedScopes only shrinks\<close>

lemma scopes_subset_refl: "scopes_subset a a"
  by (simp add: scopes_subset_def)

lemma scopes_subset_ClearBits: "scopes_subset (ClearBits m bits) m"
  by (simp add: scopes_subset_bit bit_ClearBits)

lemma scopes_subset_AND: "scopes_subset (m AND em) m"
  by (simp add: scopes_subset_bit bit_and_iff)

lemma processEvents_step_Sent:
  assumes "processEvents_step t ids st e0 done = (st', Sent e')"
  shows "scopes_subset (MatchedScopes e') (MatchedScopes (fst (processEvent t e0)))"
  using assms
  by (auto simp: processEvents_step_def Let_def select_send_def scopes_subset_refl
      scopes_subset_ClearBits split: prod.splits if_splits)

lemma parseArguments_MatchedScopes:
  assumes "\<forall>x. MatchedScopes (fst (ParseArgs t x)) = MatchedScopes x"
    and "\<forall>x. MatchedScopes (fst (ParseArgsFDs t x)) = MatchedScopes x"
  shows "MatchedScopes (fst (parseArguments t e)) = MatchedScopes e"
proof (cases "ParseArgs t e")
  case (Pair e1 err)
  with assms(1) have 1: "MatchedScopes e1 = MatchedScopes e"
    by (metis fst_conv)
  from assms(2) have 2: "MatchedScopes (fst (ParseArgsFDs t e1)) = MatchedScopes e1"
    by simp
  from Pair 1 2 show ?thesis
    by (simp add: parseArguments_def split: option.splits)
qed

lemma sinkEvents_step_Sent:
  assumes "sinkEvents_step t st e0 done = (st', Sent e')"
    and "\<forall>x. MatchedScopes (fst (ParseArgs t x)) = MatchedScopes x"
    and "\<forall>x. MatchedScopes (fst (ParseArgsFDs t x)) = MatchedScopes x"
  shows "MatchedScopes e' = MatchedScopes (emit_masked t e0)"
proof -
  have p: "MatchedScopes (fst (parseArguments t (emit_masked t e0))) =
           MatchedScopes (emit_masked t e0)"
    by (rule parseArguments_MatchedScopes [OF assms(2,3)])
  have "MatchedScopes (snd (sink_parse t st (emit_masked t e0))) =
        MatchedScopes (emit_masked t e0)"
  proof (cases "parseArguments t (emit_masked t e0)")
    case (Pair a b)
    with p show ?thesis
      by (cases b) (simp_all add: sink_parse_def)
  qed
  with assms(1) show ?thesis
    by (auto simp: sinkEvents_step_masked split: if_splits prod.splits)
qed

lemma derivative_left_subset:
  "scopes_subset (MatchedScopes (derivative_left t ids d)) (MatchedScopes d)"
  using computeScopes_subset [of "FilterScopes (config t)" d]
  by (simp add: derivative_left_def shouldProcessEvent_def scopes_subset_refl)

lemma derivative_sent_subset:
  "derivative_sent t ids d = Some e' \<Longrightarrow> scopes_subset (MatchedScopes e') (MatchedScopes d)"
  using computeScopes_subset [of "FilterScopes (config t)" d]
  by (auto simp: derivative_sent_def shouldProcessEvent_def scopes_subset_refl
      split: if_splits)

text \<open>
  Claim C3. Every operation of the pipeline on \<^verbatim>\<open>MatchedScopes\<close> only clears bits:
  \<^verbatim>\<open>computeScopes\<close> (and \<^verbatim>\<open>shouldProcessEvent\<close>, which stores its result), the
  container-filter correction of the processor, the emit mask of the sink, and the filter
  of the derivatives: the bitmap of a derivative, as it is at the moment of the send and as
  the pointer sent reads once the loop is over, is a subset of the bitmap of a derivative
  the registry gave, and the event itself goes first and reads as it was. Hence an event
  that is decoded, processed, forwarded by the deriver and sent by the sink has a bitmap
  that is a subset of the one the kernel reported in the header. The side effects of \<^verbatim>\<open>processEvent\<close> and the argument parsers are code outside
  the file; the path through the stages asks of them that they leave the bitmap as it is.
\<close>

theorem MatchedScopes_only_cleared:
  "scopes_subset (computeScopes filterScopes e) (MatchedScopes e) \<and>
   scopes_subset (MatchedScopes (fst (shouldProcessEvent filterScopes e))) (MatchedScopes e) \<and>
   (processEvents_step t ids st e0 done = (st', Sent e') \<longrightarrow>
      scopes_subset (MatchedScopes e') (MatchedScopes (fst (processEvent t e0)))) \<and>
   scopes_subset (MatchedScopes (emit_masked t e)) (MatchedScopes e) \<and>
   (\<forall>s\<in>set (snd (snd (deriveEvents_loop t ids st h ds))).
      (\<exists>d\<in>set ds. scopes_subset (MatchedScopes (at_send s)) (MatchedScopes d)) \<and>
      (\<exists>d\<in>set ds.
         scopes_subset
           (MatchedScopes (deref (fst (snd (deriveEvents_loop t ids st h ds))) s))
           (MatchedScopes d))) \<and>
   ptr (hd (snd (snd (deriveEvents_step t ids st h)))) = EventAddr \<and>
   at_send (hd (snd (snd (deriveEvents_step t ids st h)))) = h EventAddr \<and>
   deref (fst (snd (deriveEvents_step t ids st h)))
     (hd (snd (snd (deriveEvents_step t ids st h)))) = h EventAddr \<and>
   (decodeEvents_step t st0 dataRaw d1 = Inr (st1, Sent e1) \<and>
    DecodeContext t dataRaw = Inr (ctx, payload) \<and>
    MatchedScopes (fst (processEvent t e1)) = MatchedScopes e1 \<and>
    processEvents_step t ids st1 e1 d2 = (st2, Sent e2) \<and>
    (\<forall>x. MatchedScopes (fst (ParseArgs t x)) = MatchedScopes x) \<and>
    (\<forall>x. MatchedScopes (fst (ParseArgsFDs t x)) = MatchedScopes x) \<and>
    sinkEvents_step t st2 e2 d3 = (st3, Sent e3) \<longrightarrow>
      scopes_subset (MatchedScopes e3) (ctx_MatchedScopes ctx))"
proof -
  have 1: "scopes_subset (computeScopes filterScopes e) (MatchedScopes e)"
    by (rule computeScopes_subset)
  have 2: "scopes_subset (MatchedScopes (fst (shouldProcessEvent filterScopes e)))
             (MatchedScopes e)"
    by (simp add: shouldProcessEvent_def computeScopes_subset)
  have 3: "processEvents_step t ids st e0 done = (st', Sent e') \<longrightarrow>
      scopes_subset (MatchedScopes e') (MatchedScopes (fst (processEvent t e0)))"
    by (blast intro: processEvents_step_Sent)
  have 4: "scopes_subset (MatchedScopes (emit_masked t e)) (MatchedScopes e)"
    by (simp add: emit_masked_def scopes_subset_AND)
  have 5: "\<forall>s\<in>set (snd (snd (deriveEvents_loop t ids st h ds))).
      (\<exists>d\<in>set ds. scopes_subset (MatchedScopes (at_send s)) (MatchedScopes d)) \<and>
      (\<exists>d\<in>set ds.
         scopes_subset
           (MatchedScopes (deref (fst (snd (deriveEvents_loop t ids st h ds))) s))
           (MatchedScopes d))"
  proof
    fix s
    assume s: "s \<in> set (snd (snd (deriveEvents_loop t ids st h ds)))"
    then have "at_send s \<in> set (map at_send (snd (snd (deriveEvents_loop t ids st h ds))))"
      by simp
    then obtain d where "d \<in> set ds" "derivative_sent t ids d = Some (at_send s)"
      by (auto simp: deriveEvents_loop_at_send in_set_map_filter)
    then have a: "\<exists>d\<in>set ds. scopes_subset (MatchedScopes (at_send s)) (MatchedScopes d)"
      by (blast intro: derivative_sent_subset)
    from s have n: "ds \<noteq> []" by (rule deriveEvents_loop_sends_nonempty)
    from s have "ptr s = DerivativeAddr" by (rule deriveEvents_loop_ptr)
    then have "deref (fst (snd (deriveEvents_loop t ids st h ds))) s =
               derivative_left t ids (last ds)"
      using deriveEvents_loop_heap_derivative [OF n] by (simp add: deref_def)
    moreover from n have "last ds \<in> set ds" by simp
    ultimately have b: "\<exists>d\<in>set ds.
         scopes_subset
           (MatchedScopes (deref (fst (snd (deriveEvents_loop t ids st h ds))) s))
           (MatchedScopes d)"
      using derivative_left_subset [of t ids "last ds"] by auto
    from a b show "(\<exists>d\<in>set ds. scopes_subset (MatchedScopes (at_send s)) (MatchedScopes d)) \<and>
      (\<exists>d\<in>set ds.
         scopes_subset
           (MatchedScopes (deref (fst (snd (deriveEvents_loop t ids st h ds))) s))
           (MatchedScopes d))"
      by blast
  qed
  have 6: "ptr (hd (snd (snd (deriveEvents_step t ids st h)))) = EventAddr \<and>
   at_send (hd (snd (snd (deriveEvents_step t ids st h)))) = h EventAddr \<and>
   deref (fst (snd (deriveEvents_step t ids st h)))
     (hd (snd (snd (deriveEvents_step t ids st h)))) = h EventAddr"
    by (simp add: deriveEvents_step_def Let_def case_prod_beta deref_def
        deriveEvents_loop_heap_event)
  have 7: "decodeEvents_step t st0 dataRaw d1 = Inr (st1, Sent e1) \<and>
    DecodeContext t dataRaw = Inr (ctx, payload) \<and>
    MatchedScopes (fst (processEvent t e1)) = MatchedScopes e1 \<and>
    processEvents_step t ids st1 e1 d2 = (st2, Sent e2) \<and>
    (\<forall>x. MatchedScopes (fst (ParseArgs t x)) = MatchedScopes x) \<and>
    (\<forall>x. MatchedScopes (fst (ParseArgsFDs t x)) = MatchedScopes x) \<and>
    sinkEvents_step t st2 e2 d3 = (st3, Sent e3) \<longrightarrow>
      scopes_subset (MatchedScopes e3) (ctx_MatchedScopes ctx)"
  proof
    assume h: "decodeEvents_step t st0 dataRaw d1 = Inr (st1, Sent e1) \<and>
      DecodeContext t dataRaw = Inr (ctx, payload) \<and>
      MatchedScopes (fst (processEvent t e1)) = MatchedScopes e1 \<and>
      processEvents_step t ids st1 e1 d2 = (st2, Sent e2) \<and>
      (\<forall>x. MatchedScopes (fst (ParseArgs t x)) = MatchedScopes x) \<and>
      (\<forall>x. MatchedScopes (fst (ParseArgsFDs t x)) = MatchedScopes x) \<and>
      sinkEvents_step t st2 e2 d3 = (st3, Sent e3)"
    from h have dec: "decodeEvents_step t st0 dataRaw d1 = Inr (st1, Sent e1)"
      and dc: "DecodeContext t dataRaw = Inr (ctx, payload)"
      and pe: "MatchedScopes (fst (processEvent t e1)) = MatchedScopes e1"
      and pr: "processEvents_step t ids st1 e1 d2 = (st2, Sent e2)"
      and pa: "\<forall>x. MatchedScopes (fst (ParseArgs t x)) = MatchedScopes x"
      and pf: "\<forall>x. MatchedScopes (fst (ParseArgsFDs t x)) = MatchedScopes x"
      and si: "sinkEvents_step t st2 e2 d3 = (st3, Sent e3)"
      by blast+
    from decodeEvents_step_Sent [OF dec dc]
    have a: "scopes_subset (MatchedScopes e1) (ctx_MatchedScopes ctx)" by blast
    from processEvents_step_Sent [OF pr] pe
    have b: "scopes_subset (MatchedScopes e2) (MatchedScopes e1)" by simp
    from sinkEvents_step_Sent [OF si pa pf]
    have "MatchedScopes e3 = MatchedScopes (emit_masked t e2)" .
    then have c: "scopes_subset (MatchedScopes e3) (MatchedScopes e2)"
      by (simp add: emit_masked_def scopes_subset_AND)
    from c b a show "scopes_subset (MatchedScopes e3) (ctx_MatchedScopes ctx)"
      by (blast intro: scopes_subset_trans)
  qed
  from 1 2 3 4 5 6 7 show ?thesis by blast
qed

theorem MatchedScopes_only_cleared_witness:
  "(case decodeEvents_step (stubTracee run_config run_context) zeroState [] False of
      Inr (st1, Sent e1) \<Rightarrow>
        (case processEvents_step (stubTracee run_config run_context) exampleIDs st1 e1 False of
           (st2, Sent e2) \<Rightarrow>
             (case sinkEvents_step (stubTracee run_config run_context) st2 e2 False of
                (st3, Sent e3) \<Rightarrow>
                  MatchedScopes e1 = 5 \<and> MatchedScopes e2 = 1 \<and> MatchedScopes e3 = 1 \<and>
                  scopes_subset (MatchedScopes e3) 13
              | _ \<Rightarrow> False)
         | _ \<Rightarrow> False)
    | _ \<Rightarrow> False)"
proof -
  let ?t = "stubTracee run_config run_context"
  have cf: "Output_StackAddresses run_config = False" "Output_RelativeTime run_config = False"
    "FilterScopes run_config = [pidScope 3 100 200]" "ContainerFilterEnabled run_config = 4"
    "EngineConfig_Enabled run_config = False" "Output_ParseArguments run_config = False"
    by (simp_all add: run_config_def zeroConfig_def)
  have cx: "unat (ctx_Argnum run_context) = 0" "ctx_EventID run_context = 0"
    "ctx_MatchedScopes run_context = 13" "ctx_HostPid run_context = 0"
    by (simp_all add: run_context_def zeroContext_def)
  have gi: "GetCgroupInfo ?t x = emptyContainer" for x
    by (simp add: stubTracee_def)
  have cs: "computeScopes [pidScope 3 100 200] e = 5"
    if "MatchedScopes e = 13" "HostProcessID e = 0" for e
    using that
    by (simp add: computeScopes_def computeScopes_body_def pidScope_def HasBit_def
        ClearBit_def Enabled_def InMinMaxRange_def)
  obtain e1 where e1: "decodeEvents_step ?t zeroState [] False = Inr (zeroState, Sent e1)"
    and m1: "MatchedScopes e1 = 5" and c1: "ContainerID e1 = []" and i1: "EventID e1 = 0"
    by (simp add: decodeEvents_step_def stubTracee_fields cf cx shouldProcessEvent_def
        makeEvent_def normalizeTime_def select_send_def Let_def cs gi emptyContainer_def)
  have dc: "DecodeContext ?t [] = Inr (run_context, [])"
    by (simp add: stubTracee_fields)
  have pe: "processEvent ?t x = (x, [])" for x
    by (simp add: stubTracee_fields)
  obtain e2 where e2: "processEvents_step ?t exampleIDs zeroState e1 False = (zeroState, Sent e2)"
    and m2: "MatchedScopes e2 = 1" and i2: "EventID e2 = 0"
    by (simp add: processEvents_step_def pe stubTracee_fields cf m1 c1 i1 exampleIDs_def
        ClearBits_def select_send_def Let_def)
  have em: "emit_of ?t x = 1" for x
    by (simp add: emit_of_def stubTracee_fields)
  have pa: "parseArguments ?t x = (x, None)" for x
    by (simp add: parseArguments_def stubTracee_fields cf)
  obtain e3 st3 where e3: "sinkEvents_step ?t zeroState e2 False = (st3, Sent e3)"
    and m3: "MatchedScopes e3 = 1"
    by (simp add: sinkEvents_step_def sink_parse_def pa stubTracee_fields cf em m2 Let_def)
  have h: "decodeEvents_step ?t zeroState [] False = Inr (zeroState, Sent e1) \<and>
    DecodeContext ?t [] = Inr (run_context, []) \<and>
    MatchedScopes (fst (processEvent ?t e1)) = MatchedScopes e1 \<and>
    processEvents_step ?t exampleIDs zeroState e1 False = (zeroState, Sent e2) \<and>
    (\<forall>x. MatchedScopes (fst (ParseArgs ?t x)) = MatchedScopes x) \<and>
    (\<forall>x. MatchedScopes (fst (ParseArgsFDs ?t x)) = MatchedScopes x) \<and>
    sinkEvents_step ?t zeroState e2 False = (st3, Sent e3)"
    using e1 dc e2 e3 by (simp add: stubTracee_fields)
  from MatchedScopes_only_cleared
    [where t = ?t and ids = exampleIDs and ?st0.0 = zeroState and dataRaw = "[]"
      and ?d1.0 = False and ?st1.0 = zeroState and ?e1.0 = e1 and ctx = run_context
      and payload = "[]" and ?d2.0 = False and ?st2.0 = zeroState and ?e2.0 = e2
      and ?d3.0 = False and ?st3.0 = st3 and ?e3.0 = e3] h
  have "scopes_subset (MatchedScopes e3) (ctx_MatchedScopes run_context)"
    by blast
  then have "scopes_subset (MatchedScopes e3) 13"
    by (simp add: cx)
  with e1 e2 e3 m1 m2 m3 show ?thesis by simp
qed

end
